theory Spec2Isabelle
  imports Main "HOL-Library.Word" "HOL-Library.Monad_Syntax" "HOL-Library.Sublist"
begin

text \<open>
  The module \<^verbatim>\<open>init/features/apphosting/githubConnections.ts\<close> of firebase-tools links
  an App Hosting backend to a GitHub repository through Developer Connect. The theory
  embeds its name codec, its three regular expressions, and its provisioning and
  discovery functions: outgoing calls are functions on an abstract world, each run
  records the calls it makes, and a thrown error is a value.
\<close>

section \<open>JavaScript strings\<close>

text \<open>
  A JavaScript string is a sequence of UTF-16 code units, and a regular expression
  without the \<^verbatim>\<open>u\<close> flag matches code unit by code unit. Strings are therefore
  lists of 16-bit words; \<open>js\<close> embeds an ASCII literal.
\<close>

type_synonym jsstring = "16 word list"

definition js :: "string \<Rightarrow> jsstring" where
  "js s = map of_char s"

text \<open>The code units that the pattern character \<^verbatim>\<open>.\<close> does not match
  (LF, CR, U+2028, U+2029).\<close>

definition isLineTerminator :: "16 word \<Rightarrow> bool" where
  "isLineTerminator c = (c = 0x0A \<or> c = 0x0D \<or> c = 0x2028 \<or> c = 0x2029)"

definition slash :: "16 word" where
  "slash = of_char CHR ''/''"

definition dash :: "16 word" where
  "dash = of_char CHR ''-''"

text \<open>A text that \<^verbatim>\<open>.+\<close> can match from end to end.\<close>

definition lineFree :: "jsstring \<Rightarrow> bool" where
  "lineFree g = (\<forall>c\<in>set g. \<not> isLineTerminator c)"

subsection \<open>Pieces of the regular expressions\<close>

text \<open>A literal run of pattern characters at the head of the input: the rest of the
  input when it is there.\<close>

definition literal :: "jsstring \<Rightarrow> jsstring \<Rightarrow> jsstring option" where
  "literal p s = (if take (length p) s = p then Some (drop (length p) s) else None)"

text \<open>
  \<^verbatim>\<open>[^\/]+\<close>: the longest non-empty run of code units other than \<^verbatim>\<open>/\<close>, and
  the rest. In \<^verbatim>\<open>CONNECTION_NAME_REGEX\<close> each such group is followed by a literal
  \<^verbatim>\<open>/\<close> or by the end anchor, so a shorter run leaves a code unit other than
  \<^verbatim>\<open>/\<close> where the pattern needs \<^verbatim>\<open>/\<close> or the end of the input: backtracking
  into the group never succeeds and only the longest run is tried.
\<close>

definition notSlashPlus :: "jsstring \<Rightarrow> (jsstring \<times> jsstring) option" where
  "notSlashPlus s =
     (let g = takeWhile (\<lambda>c. c \<noteq> slash) s
      in if g = [] then None else Some (g, dropWhile (\<lambda>c. c \<noteq> slash) s))"

text \<open>\<^verbatim>\<open>.\<close>: one code unit that is not a line terminator.\<close>

definition anyChar :: "jsstring \<Rightarrow> jsstring option" where
  "anyChar s =
     (case s of [] \<Rightarrow> None | c # r \<Rightarrow> if isLineTerminator c then None else Some r)"

text \<open>
  \<^verbatim>\<open>.+\<close> followed by the rest \<open>k\<close> of the pattern: greedy, with backtracking.
  The group first takes the longest run of code units that are not line terminators;
  while the rest of the pattern fails on what is left, it gives one code unit back,
  down to a run of length one. The result is the text the group matched, with the
  result of the rest of the pattern.
\<close>

fun dotPlusUpTo :: "(jsstring \<Rightarrow> 'a option) \<Rightarrow> jsstring \<Rightarrow> nat \<Rightarrow> (jsstring \<times> 'a) option" where
  "dotPlusUpTo k s 0 = None"
| "dotPlusUpTo k s (Suc n) =
     (case k (drop (Suc n) s) of
        Some a \<Rightarrow> Some (take (Suc n) s, a)
      | None \<Rightarrow> dotPlusUpTo k s n)"

definition dotPlus :: "(jsstring \<Rightarrow> 'a option) \<Rightarrow> jsstring \<Rightarrow> (jsstring \<times> 'a) option" where
  "dotPlus k s = dotPlusUpTo k s (length (takeWhile (\<lambda>c. \<not> isLineTerminator c) s))"

text \<open>\<^verbatim>\<open>$\<close> without the \<^verbatim>\<open>m\<close> flag: the end of the input.\<close>

definition endOfInput :: "jsstring \<Rightarrow> unit option" where
  "endOfInput s = (if s = [] then Some () else None)"

text \<open>
  A pattern that is not anchored at the start is tried at index 0, then 1, and so on up
  to the length of the input; the first index at which it matches wins.
\<close>

fun searchFrom :: "(jsstring \<Rightarrow> 'a option) \<Rightarrow> jsstring \<Rightarrow> 'a option" where
  "searchFrom rx [] = rx []"
| "searchFrom rx (c # cs) =
     (case rx (c # cs) of Some a \<Rightarrow> Some a | None \<Rightarrow> searchFrom rx cs)"

text \<open>\<^verbatim>\<open>RegExp.prototype.test\<close>.\<close>

definition test :: "(jsstring \<Rightarrow> 'a option) \<Rightarrow> jsstring \<Rightarrow> bool" where
  "test rx s = (searchFrom rx s \<noteq> None)"

subsection \<open>String methods\<close>

text \<open>\<^verbatim>\<open>String.prototype.replace\<close> with a string pattern: the first occurrence only.
  The replacement is taken literally; the replacements of this module hold no
  \<^verbatim>\<open>$\<close>.\<close>

fun replace :: "jsstring \<Rightarrow> jsstring \<Rightarrow> jsstring \<Rightarrow> jsstring" where
  "replace pat rep [] = (if pat = [] then rep else [])"
| "replace pat rep (c # cs) =
     (if take (length pat) (c # cs) = pat then rep @ drop (length pat) (c # cs)
      else c # replace pat rep cs)"

text \<open>\<^verbatim>\<open>String.prototype.replaceAll\<close> with a string pattern: every occurrence, left to
  right, without overlap; an empty pattern matches before every code unit and at the end.\<close>

function replaceAll :: "jsstring \<Rightarrow> jsstring \<Rightarrow> jsstring \<Rightarrow> jsstring" where
  "replaceAll pat rep s =
     (if s = [] then (if pat = [] then rep else [])
      else if pat = [] then rep @ hd s # replaceAll pat rep (tl s)
      else if take (length pat) s = pat then rep @ replaceAll pat rep (drop (length pat) s)
      else hd s # replaceAll pat rep (tl s))"
  by pat_completeness auto
termination
  by (relation "measure (\<lambda>(pat, rep, s). length s)") auto

declare replaceAll.simps [simp del]

section \<open>Resource names\<close>

text \<open>The interface \<^verbatim>\<open>ConnectionNameParts\<close>: its fields \<^verbatim>\<open>projectId\<close>,
  \<^verbatim>\<open>location\<close> and \<^verbatim>\<open>id\<close>, in this order. The source only builds and
  destructures it.\<close>

datatype ConnectionNameParts = ConnectionNameParts jsstring jsstring jsstring

text \<open>
  \<^verbatim>\<open>CONNECTION_NAME_REGEX =
  /^projects\/(?<projectId>[^\/]+)\/locations\/(?<location>[^\/]+)\/connections\/(?<id>[^\/]+)$/\<close>
  applied with \<^verbatim>\<open>exec\<close>. The pattern is anchored at both ends and has no
  \<^verbatim>\<open>m\<close> flag, so a match starts at index 0 and ends at the end of the input.
  The result is the three named groups, or \<open>None\<close> for \<^verbatim>\<open>undefined\<close>; the test
  \<^verbatim>\<open>typeof match.groups === undefined\<close> is never true.
\<close>

definition parseConnectionName :: "jsstring \<Rightarrow> ConnectionNameParts option" where
  "parseConnectionName name =
     do {
       r1 \<leftarrow> literal (js ''projects/'') name;
       (p, r2) \<leftarrow> notSlashPlus r1;
       r3 \<leftarrow> literal (js ''/locations/'') r2;
       (l, r4) \<leftarrow> notSlashPlus r3;
       r5 \<leftarrow> literal (js ''/connections/'') r4;
       (i, r6) \<leftarrow> notSlashPlus r5;
       if r6 = [] then Some (ConnectionNameParts p l i) else None
     }"

text \<open>A path segment: non-empty and free of \<^verbatim>\<open>/\<close>.\<close>

definition segment :: "jsstring \<Rightarrow> bool" where
  "segment x = (x \<noteq> [] \<and> slash \<notin> set x)"

text \<open>The canonical name of the connection \<open>i\<close> of project \<open>p\<close> at location \<open>l\<close>.\<close>

definition connectionName :: "jsstring \<Rightarrow> jsstring \<Rightarrow> jsstring \<Rightarrow> jsstring" where
  "connectionName p l i =
     js ''projects/'' @ p @ js ''/locations/'' @ l @ js ''/connections/'' @ i"

text \<open>
  \<^verbatim>\<open>/github.com\/(.+).git/.exec(cloneUri)\<close> at one start index: the literal
  \<^verbatim>\<open>github\<close>, any code unit (the dot is not escaped), \<^verbatim>\<open>com/\<close>, the greedy
  group, any code unit, \<^verbatim>\<open>git\<close>. The value is the group \<^verbatim>\<open>match[1]\<close>.
\<close>

definition repoSlugPattern :: "jsstring \<Rightarrow> jsstring option" where
  "repoSlugPattern s =
     do {
       r1 \<leftarrow> literal (js ''github'') s;
       r2 \<leftarrow> anyChar r1;
       r3 \<leftarrow> literal (js ''com/'') r2;
       (g, _) \<leftarrow> dotPlus (\<lambda>t. do { t1 \<leftarrow> anyChar t; literal (js ''git'') t1 }) r3;
       Some g
     }"

definition extractRepoSlugFromUri :: "jsstring \<Rightarrow> jsstring option" where
  "extractRepoSlugFromUri cloneUri = searchFrom repoSlugPattern cloneUri"

definition generateRepositoryId :: "jsstring \<Rightarrow> jsstring option" where
  "generateRepositoryId remoteUri =
     map_option (replaceAll (js ''/'') (js ''-'')) (extractRepoSlugFromUri remoteUri)"

text \<open>
  \<^verbatim>\<open>generateConnectionId\<close>. The argument is the value of
  \<^verbatim>\<open>Math.random().toString(36)\<close>, the only part the function does not compute from
  text; \<^verbatim>\<open>slice(6)\<close> drops its first six code units.
\<close>

definition generateConnectionId :: "jsstring \<Rightarrow> jsstring" where
  "generateConnectionId random36 =
     (let randomHash = drop 6 random36 in js ''apphosting-github-conn-'' @ randomHash)"

text \<open>\<^verbatim>\<open>APPHOSTING_CONN_PATTERN = /.+\/apphosting-github-conn-.+$/\<close> at one start index.\<close>

definition APPHOSTING_CONN_PATTERN :: "jsstring \<Rightarrow> unit option" where
  "APPHOSTING_CONN_PATTERN s =
     map_option (\<lambda>_. ())
       (dotPlus (\<lambda>t. do {
                   u \<leftarrow> literal (js ''/apphosting-github-conn-'') t;
                   dotPlus endOfInput u
                 }) s)"

definition APPHOSTING_OAUTH_CONN_NAME :: jsstring where
  "APPHOSTING_OAUTH_CONN_NAME = js ''apphosting-github-oauth''"

section \<open>Resources of the connection service\<close>

text \<open>
  Modelled from the spec: the type of \<^verbatim>\<open>installationState.stage\<close> is declared in
  \<^verbatim>\<open>gcp/devConnect\<close>, which is not among the sources. The specification gives the
  stages as \<open>PENDING_USER_OAUTH\<close>, \<open>PENDING_USER_INSTALL_APP\<close> (any other stage
  that is not terminal) and \<open>COMPLETE\<close>.
\<close>

datatype InstallationStage = PENDING_USER_OAUTH | PENDING_USER_INSTALL_APP | COMPLETE

record InstallationState =
  stage :: InstallationStage
  message :: jsstring
  actionUri :: jsstring

record GitHubConfig =
  authorizerCredential :: "jsstring option"
  appInstallationId :: "jsstring option"

record Named =
  name :: jsstring

record Connection = Named +
  disabled :: bool
  createTime :: jsstring
  updateTime :: jsstring
  installationState :: InstallationState
  reconciling :: bool
  githubConfig :: "GitHubConfig option"

record Operation = Named +
  done' :: bool

record LinkableGitRepository =
  cloneUri :: jsstring

text \<open>
  A repository link is handed from the service to the caller; this module reads none of
  its fields. The arguments are \<^verbatim>\<open>name\<close>, \<^verbatim>\<open>cloneUri\<close> and \<^verbatim>\<open>uid\<close>; the time
  stamps and the \<^verbatim>\<open>reconciling\<close> flag are left out.
\<close>

datatype GitRepositoryLink = GitRepositoryLink jsstring jsstring jsstring

section \<open>Errors\<close>

text \<open>
  A thrown value. \<open>FirebaseError m st\<close> is \<^verbatim>\<open>new FirebaseError(m, {status: n})\<close>
  when \<open>st = Some n\<close> and \<^verbatim>\<open>new FirebaseError(m)\<close> when \<open>st = None\<close>; the class is
  outside the sources, and this module never reads the status of an error that it
  builds itself. \<open>TypeError\<close> is what the runtime throws when the properties of
  \<^verbatim>\<open>undefined\<close> are destructured.
\<close>

datatype error = FirebaseError jsstring "int option" | TypeError

fun status :: "error \<Rightarrow> int option" where
  "status (FirebaseError m st) = st"
| "status TypeError = None"

section \<open>Collaborators, state and the trace of calls\<close>

record PollerOptions =
  apiOrigin :: jsstring
  apiVersion :: jsstring
  masterTimeout :: int
  maxBackoff :: int
  pollerName :: jsstring
  operationResourceName :: jsstring

record PromptOptions =
  type' :: jsstring
  promptMessage :: jsstring

text \<open>Every call that leaves the module, with its arguments.\<close>

datatype call =
    GetConnection jsstring jsstring jsstring
  | CreateConnection jsstring jsstring jsstring "GitHubConfig option"
  | PollOperation PollerOptions
  | GetGitRepositoryLink jsstring jsstring jsstring jsstring
  | CreateGitRepositoryLink jsstring jsstring jsstring jsstring jsstring
  | ListAllConnections jsstring jsstring
  | ListAllLinkableGitRepositories jsstring jsstring jsstring
  | OpenInBrowser jsstring
  | OpenInBrowserPopup jsstring jsstring
  | PromptOnce PromptOptions
  | Cleanup

text \<open>
  The imported functions act on a world \<open>'w\<close> outside the module (the remote service,
  the browser, the human at the prompt): each takes the world, answers with a value or
  a thrown error, and leaves a new world. \<open>poller.pollOperation<T>\<close> has one field
  for each type it is used at. \<open>cleanup\<close> is the function that
  \<^verbatim>\<open>openInBrowserPopup\<close> returns beside the url. \<^verbatim>\<open>utils.logBullet\<close> and
  \<^verbatim>\<open>utils.logSuccess\<close> only write to the console and are left out.
\<close>

type_synonym ('a, 'w) collaborator = "'w \<Rightarrow> (error + 'a) \<times> 'w"

record 'w Collaborators =
  developerConnectOrigin :: jsstring
  devConnect_getConnection :: "jsstring \<Rightarrow> jsstring \<Rightarrow> jsstring \<Rightarrow> (Connection, 'w) collaborator"
  devConnect_createConnection ::
    "jsstring \<Rightarrow> jsstring \<Rightarrow> jsstring \<Rightarrow> GitHubConfig option \<Rightarrow> (Operation, 'w) collaborator"
  devConnect_getGitRepositoryLink ::
    "jsstring \<Rightarrow> jsstring \<Rightarrow> jsstring \<Rightarrow> jsstring \<Rightarrow> (GitRepositoryLink, 'w) collaborator"
  devConnect_createGitRepositoryLink ::
    "jsstring \<Rightarrow> jsstring \<Rightarrow> jsstring \<Rightarrow> jsstring \<Rightarrow> jsstring \<Rightarrow> (Operation, 'w) collaborator"
  devConnect_listAllConnections :: "jsstring \<Rightarrow> jsstring \<Rightarrow> (Connection list, 'w) collaborator"
  devConnect_listAllLinkableGitRepositories ::
    "jsstring \<Rightarrow> jsstring \<Rightarrow> jsstring \<Rightarrow> (LinkableGitRepository list, 'w) collaborator"
  poller_pollOperation_Connection :: "PollerOptions \<Rightarrow> (Connection, 'w) collaborator"
  poller_pollOperation_GitRepositoryLink :: "PollerOptions \<Rightarrow> (GitRepositoryLink, 'w) collaborator"
  utils_openInBrowser :: "jsstring \<Rightarrow> (unit, 'w) collaborator"
  utils_openInBrowserPopup :: "jsstring \<Rightarrow> jsstring \<Rightarrow> (jsstring, 'w) collaborator"
  cleanup :: "(unit, 'w) collaborator"
  promptOnce :: "PromptOptions \<Rightarrow> (jsstring, 'w) collaborator"

record 'w state =
  world :: 'w
  calls :: "call list"

text \<open>One awaited call: it is appended to the trace and acts on the world.\<close>

definition invoke :: "call \<Rightarrow> ('a, 'w) collaborator \<Rightarrow> 'w state \<Rightarrow> (error + 'a) \<times> 'w state" where
  "invoke c f s = (case f (world s) of (r, w) \<Rightarrow> (r, \<lparr>world = w, calls = calls s @ [c]\<rparr>))"

text \<open>\<^verbatim>\<open>{...devConnectPollerOptions, pollerName, operationResourceName}\<close>.\<close>

definition devConnectPollerOptions :: "'w Collaborators \<Rightarrow> jsstring \<Rightarrow> jsstring \<Rightarrow> PollerOptions" where
  "devConnectPollerOptions R pName opName =
     \<lparr>apiOrigin = developerConnectOrigin R, apiVersion = js ''v1'',
      masterTimeout = 25 * 60 * 1000, maxBackoff = 10000,
      pollerName = pName, operationResourceName = opName\<rparr>"

section \<open>Provisioning connections\<close>

definition createConnection ::
  "'w Collaborators \<Rightarrow> jsstring \<Rightarrow> jsstring \<Rightarrow> jsstring \<Rightarrow> GitHubConfig option \<Rightarrow>
   'w state \<Rightarrow> (error + Connection) \<times> 'w state" where
  "createConnection R projectId location connectionId githubConfig' s =
     (case invoke (CreateConnection projectId location connectionId githubConfig')
             (devConnect_createConnection R projectId location connectionId githubConfig') s of
        (Inl err, s1) \<Rightarrow> (Inl err, s1)
      | (Inr op, s1) \<Rightarrow>
          (let opts = devConnectPollerOptions R
                        (js ''create-'' @ location @ js ''-'' @ connectionId) (name op)
           in invoke (PollOperation opts) (poller_pollOperation_Connection R opts) s1))"

definition getOrCreateConnection ::
  "'w Collaborators \<Rightarrow> jsstring \<Rightarrow> jsstring \<Rightarrow> jsstring \<Rightarrow> GitHubConfig option \<Rightarrow>
   'w state \<Rightarrow> (error + Connection) \<times> 'w state" where
  "getOrCreateConnection R projectId location connectionId githubConfig' s =
     (case invoke (GetConnection projectId location connectionId)
             (devConnect_getConnection R projectId location connectionId) s of
        (Inr conn, s1) \<Rightarrow> (Inr conn, s1)
      | (Inl err, s1) \<Rightarrow>
          if status err = Some 404
          then createConnection R projectId location connectionId githubConfig' s1
          else (Inl err, s1))"

text \<open>
  \<^verbatim>\<open>ensureFullyInstalledConnection\<close>. The body of its \<^verbatim>\<open>while\<close> ends in
  \<^verbatim>\<open>return\<close>, so the loop is a conditional.
\<close>

definition ensureFullyInstalledConnection ::
  "'w Collaborators \<Rightarrow> jsstring \<Rightarrow> jsstring \<Rightarrow> jsstring \<Rightarrow> Connection \<Rightarrow>
   'w state \<Rightarrow> (error + Connection) \<times> 'w state" where
  "ensureFullyInstalledConnection R projectId location connectionId oauthConn s =
     (if stage (installationState oauthConn) \<noteq> COMPLETE then
        (let targetUri = replace (js ''install_v2'') (js ''direct_install_v2'')
                           (actionUri (installationState oauthConn))
         in case invoke (OpenInBrowser targetUri) (utils_openInBrowser R targetUri) s of
              (Inl err, s1) \<Rightarrow> (Inl err, s1)
            | (Inr _, s1) \<Rightarrow>
                (let q = \<lparr>type' = js ''input'', promptMessage = js
                      ''Press Enter once you have installed or configured the Firebase GitHub app to access your GitHub repo.''\<rparr>
                 in case invoke (PromptOnce q) (promptOnce R q) s1 of
                      (Inl err, s2) \<Rightarrow> (Inl err, s2)
                    | (Inr _, s2) \<Rightarrow>
                        invoke (GetConnection projectId location connectionId)
                          (devConnect_getConnection R projectId location connectionId) s2))
      else (Inr oauthConn, s))"

text \<open>
  The loop of \<^verbatim>\<open>getOrCreateOauthConnection\<close>. It has no bound, so the result is an
  option: \<open>None\<close> is a run that never leaves the loop.
\<close>

partial_function (option) oauthLoop ::
  "'w Collaborators \<Rightarrow> Connection \<Rightarrow> 'w state \<Rightarrow> ((error + Connection) \<times> 'w state) option" where
  "oauthLoop R conn s =
     (if stage (installationState conn) = PENDING_USER_OAUTH then
        (case invoke (OpenInBrowserPopup (actionUri (installationState conn))
                        (js ''Authorize the GitHub app''))
                (utils_openInBrowserPopup R (actionUri (installationState conn))
                        (js ''Authorize the GitHub app'')) s of
           (Inl err, s1) \<Rightarrow> Some (Inl err, s1)
         | (Inr url, s1) \<Rightarrow>
             (let q = \<lparr>type' = js ''input'',
                       promptMessage = js ''Press Enter once you have authorized the app''\<rparr>
              in case invoke (PromptOnce q) (promptOnce R q) s1 of
                   (Inl err, s2) \<Rightarrow> Some (Inl err, s2)
                 | (Inr _, s2) \<Rightarrow>
                     (case invoke Cleanup (cleanup R) s2 of
                        (Inl err, s3) \<Rightarrow> Some (Inl err, s3)
                      | (Inr _, s3) \<Rightarrow>
                          (case parseConnectionName (name conn) of
                             None \<Rightarrow>
                               Some (Inl TypeError, s3)
                           | Some (ConnectionNameParts projectId location id') \<Rightarrow>
                               (case invoke (GetConnection projectId location id')
                                       (devConnect_getConnection R projectId location id') s3 of
                                  (Inl err, s4) \<Rightarrow> Some (Inl err, s4)
                                | (Inr conn', s4) \<Rightarrow> oauthLoop R conn' s4)))))
      else Some (Inr conn, s))"

definition getOrCreateOauthConnection ::
  "'w Collaborators \<Rightarrow> jsstring \<Rightarrow> jsstring \<Rightarrow> 'w state \<Rightarrow>
   ((error + Connection) \<times> 'w state) option" where
  "getOrCreateOauthConnection R projectId location s =
     (case getOrCreateConnection R projectId location APPHOSTING_OAUTH_CONN_NAME None s of
        (Inl err, s1) \<Rightarrow> Some (Inl err, s1)
      | (Inr conn, s1) \<Rightarrow> oauthLoop R conn s1)"

section \<open>Provisioning repository links\<close>

definition getOrCreateRepository ::
  "'w Collaborators \<Rightarrow> jsstring \<Rightarrow> jsstring \<Rightarrow> jsstring \<Rightarrow> jsstring \<Rightarrow>
   'w state \<Rightarrow> (error + GitRepositoryLink) \<times> 'w state" where
  "getOrCreateRepository R projectId location connectionId cloneUri' s =
     (case generateRepositoryId cloneUri' of
        None \<Rightarrow>
          (Inl (FirebaseError
                  (js ''Failed to generate repositoryId for URI \"'' @ cloneUri' @ js ''\".'') None), s)
      | Some repositoryId \<Rightarrow>
          if repositoryId = []
          then (Inl (FirebaseError
                  (js ''Failed to generate repositoryId for URI \"'' @ cloneUri' @ js ''\".'') None), s)
          else
          (case invoke (GetGitRepositoryLink projectId location connectionId repositoryId)
                  (devConnect_getGitRepositoryLink R projectId location connectionId repositoryId) s of
             (Inr repo, s1) \<Rightarrow> (Inr repo, s1)
           | (Inl err, s1) \<Rightarrow>
               if status err = Some 404 then
                 (case invoke (CreateGitRepositoryLink projectId location connectionId repositoryId cloneUri')
                         (devConnect_createGitRepositoryLink R projectId location connectionId
                            repositoryId cloneUri') s1 of
                    (Inl err', s2) \<Rightarrow> (Inl err', s2)
                  | (Inr op, s2) \<Rightarrow>
                      (let opts = devConnectPollerOptions R
                                    (js ''create-'' @ location @ js ''-'' @ connectionId @ js ''-''
                                       @ repositoryId) (name op)
                       in invoke (PollOperation opts) (poller_pollOperation_GitRepositoryLink R opts) s2))
               else (Inl err, s1)))"

section \<open>Discovery\<close>

definition listAppHostingConnections ::
  "'w Collaborators \<Rightarrow> jsstring \<Rightarrow> 'w state \<Rightarrow> (error + Connection list) \<times> 'w state" where
  "listAppHostingConnections R projectId s =
     (case invoke (ListAllConnections projectId (js ''-''))
             (devConnect_listAllConnections R projectId (js ''-'')) s of
        (Inl err, s1) \<Rightarrow> (Inl err, s1)
      | (Inr conns, s1) \<Rightarrow>
          (Inr (filter (\<lambda>conn. test APPHOSTING_CONN_PATTERN (name conn) \<and>
                              stage (installationState conn) = COMPLETE \<and>
                              \<not> disabled conn) conns), s1))"

text \<open>
  A plain object used as \<^verbatim>\<open>Record<string, V>\<close>: its own properties in the order of
  their creation, and the object that an assignment has made its prototype, if any
  (\<open>None\<close> is \<^verbatim>\<open>Object.prototype\<close>, which \<^verbatim>\<open>{}\<close> starts with).
  \<^verbatim>\<open>obj[k] = v\<close> replaces the value of an existing own property where it stands and
  appends a new property at the end. The key \<^verbatim>\<open>__proto__\<close> is the exception: an object
  made by \<^verbatim>\<open>{}\<close> inherits it from \<^verbatim>\<open>Object.prototype\<close> as an accessor, and assigning
  an object to it makes that object the prototype and creates no own property. The
  values stored by this module are connections, objects with writable fields, so a
  member inherited from one of them does not stand in the way of a later assignment.
\<close>

record 'v jsobject =
  properties :: "(jsstring \<times> 'v) list"
  prototype :: "'v option"


fun defineOwn :: "(jsstring \<times> 'v) list \<Rightarrow> jsstring \<Rightarrow> 'v \<Rightarrow> (jsstring \<times> 'v) list" where
  "defineOwn [] k v = [(k, v)]"
| "defineOwn ((k', v') # ps) k v =
     (if k' = k then (k, v) # ps else (k', v') # defineOwn ps k v)"

definition setProperty :: "'v jsobject \<Rightarrow> jsstring \<Rightarrow> 'v \<Rightarrow> 'v jsobject" where
  "setProperty obj k v =
     (if k = js ''__proto__'' then obj\<lparr>prototype := Some v\<rparr>
      else obj\<lparr>properties := defineOwn (properties obj) k v\<rparr>)"








section \<open>Vocabulary of the specification\<close>

text \<open>
  The clone-URL shape as the specification words it, \<^verbatim>\<open>.../owner/repo.git\<close>: some
  text, then an owner and a repository as two path segments, then \<^verbatim>\<open>.git\<close> at the
  end. It is stated for comparison with what \<open>extractRepoSlugFromUri\<close> accepts.
\<close>

definition ownerRepoGitShape :: "jsstring \<Rightarrow> bool" where
  "ownerRepoGitShape s =
     (\<exists>pre owner repo. segment owner \<and> segment repo \<and>
        s = pre @ js ''/'' @ owner @ js ''/'' @ repo @ js ''.git'')"

text \<open>The fixed prefix of the ids that \<open>generateConnectionId\<close> makes, which
  \<open>APPHOSTING_CONN_PATTERN\<close> spells out after its \<^verbatim>\<open>/\<close>.\<close>

definition generatedIdPrefix :: jsstring where
  "generatedIdPrefix = js ''apphosting-github-conn-''"

text \<open>The calls that create a resource, and the calls a run adds to the trace.\<close>

fun isCreate :: "call \<Rightarrow> bool" where
  "isCreate (CreateConnection _ _ _ _) = True"
| "isCreate (CreateGitRepositoryLink _ _ _ _ _) = True"
| "isCreate _ = False"

definition newCalls :: "'w state \<Rightarrow> 'w state \<Rightarrow> call list" where
  "newCalls s s' = drop (length (calls s)) (calls s')"


text \<open>The last connection, in the order of the listings, that listed a repository with
  the clone URI; and the clone URIs that were listed at all.\<close>

definition lastListing ::
  "(Connection \<times> LinkableGitRepository list) list \<Rightarrow> jsstring \<Rightarrow> Connection option" where
  "lastListing ls uri =
     (case filter (\<lambda>(conn, repos). uri \<in> cloneUri ` set repos) ls of
        [] \<Rightarrow> None
      | ps \<Rightarrow> Some (fst (last ps)))"

definition listedUris :: "(Connection \<times> LinkableGitRepository list) list \<Rightarrow> jsstring set" where
  "listedUris ls = (\<Union>(conn, repos)\<in>set ls. cloneUri ` set repos)"

text \<open>The object after the listings of some connections have been written into it.\<close>

definition addListings ::
  "Connection jsobject \<Rightarrow> (Connection \<times> LinkableGitRepository list) list \<Rightarrow>
   Connection jsobject" where
  "addListings obj ls =
     foldl (\<lambda>ob (conn, repos). foldl (\<lambda>o' repo. setProperty o' (cloneUri repo) conn) ob repos) obj ls"

section \<open>Fixtures\<close>

text \<open>
  The values of \<^verbatim>\<open>githubConnections.spec.ts\<close>, and some more in their style. In the
  sandbox every collaborator throws, except \<^verbatim>\<open>openInBrowser\<close> and the clean-up of
  the popup; a test replaces the stubs it needs. The world of the stubs is a counter,
  for the stubs that answer their first and second call differently.
\<close>

definition mockConn :: "jsstring \<Rightarrow> Connection" where
  "mockConn i =
     \<lparr>name = js ''projects/'' @ js ''projectId'' @ js ''/locations/'' @ js ''us-central1'' @
             js ''/connections/'' @ i,
      disabled = False, createTime = js ''0'', updateTime = js ''1'',
      installationState =
        \<lparr>stage = COMPLETE, message = js ''complete'', actionUri = js ''https://google.com''\<rparr>,
      reconciling = False, githubConfig = None\<rparr>"

definition unexpected :: "jsstring \<Rightarrow> ('a, 'w) collaborator" where
  "unexpected what w = (Inl (FirebaseError what None), w)"

definition sandbox :: "nat Collaborators" where
  "sandbox =
     \<lparr>developerConnectOrigin = js ''https://developerconnect.googleapis.com'',
      devConnect_getConnection = (\<lambda>_ _ _. unexpected (js ''Unexpected getConnection call'')),
      devConnect_createConnection = (\<lambda>_ _ _ _. unexpected (js ''Unexpected createConnection call'')),
      devConnect_getGitRepositoryLink =
        (\<lambda>_ _ _ _. unexpected (js ''Unexpected getGitRepositoryLink call'')),
      devConnect_createGitRepositoryLink =
        (\<lambda>_ _ _ _ _. unexpected (js ''Unexpected createGitRepositoryLink call'')),
      devConnect_listAllConnections = (\<lambda>_ _. unexpected (js ''Unexpected listAllConnections call'')),
      devConnect_listAllLinkableGitRepositories =
        (\<lambda>_ _ _. unexpected (js ''Unexpected listAllLinkableGitRepositories call'')),
      poller_pollOperation_Connection = (\<lambda>_. unexpected (js ''Unexpected pollOperation call'')),
      poller_pollOperation_GitRepositoryLink = (\<lambda>_. unexpected (js ''Unexpected pollOperation call'')),
      utils_openInBrowser = (\<lambda>_ w. (Inr (), w)),
      utils_openInBrowserPopup = (\<lambda>_ _. unexpected (js ''Unexpected openInBrowserPopup call'')),
      cleanup = (\<lambda>w. (Inr (), w)),
      promptOnce = (\<lambda>_. unexpected (js ''Unexpected promptOnce call''))\<rparr>"

definition start :: "nat state" where
  "start = \<lparr>world = 0, calls = []\<rparr>"

definition listsMixedConnections :: "nat Collaborators" where
  "listsMixedConnections =
     sandbox\<lparr>devConnect_listAllConnections := (\<lambda>_ _ w.
        (Inr [mockConn (js ''apphosting-github-conn-baddcafe''), mockConn (js ''hooray-conn''),
              mockConn (js ''apphosting-github-conn-deadbeef''),
              mockConn (js ''apphosting-github-oauth'')], w))\<rparr>"

definition oauthConnInPrefixedProject :: Connection where
  "oauthConnInPrefixedProject =
     (mockConn APPHOSTING_OAUTH_CONN_NAME)
       \<lparr>name := connectionName (js ''apphosting-github-conn-x'') (js ''us-central1'')
                  APPHOSTING_OAUTH_CONN_NAME\<rparr>"

definition hoorayConnInPrefixedProject :: Connection where
  "hoorayConnInPrefixedProject =
     (mockConn (js ''hooray-conn''))
       \<lparr>name := connectionName (js ''apphosting-github-conn-x'') (js ''us-central1'')
                  (js ''hooray-conn'')\<rparr>"

definition listsPrefixedProject :: "nat Collaborators" where
  "listsPrefixedProject =
     sandbox\<lparr>devConnect_listAllConnections := (\<lambda>_ _ w.
        (Inr [oauthConnInPrefixedProject, hoorayConnInPrefixedProject], w))\<rparr>"

definition connectionId0 :: jsstring where
  "connectionId0 = js ''apphosting-us-central1''"

definition op0 :: Operation where
  "op0 = \<lparr>name = js ''projects/projectId/locations/us-central1/connections/apphosting-us-central1'',
          done' = True\<rparr>"

definition pendingConn :: Connection where
  "pendingConn =
     \<lparr>name = js ''projects/projectId/locations/us-central1/connections/apphosting-us-central1'',
      disabled = False, createTime = js ''0'', updateTime = js ''1'',
      installationState =
        \<lparr>stage = PENDING_USER_OAUTH, message = js ''pending'', actionUri = js ''https://google.com''\<rparr>,
      reconciling = False, githubConfig = None\<rparr>"

definition completeConn :: Connection where
  "completeConn =
     \<lparr>name = js ''projects/projectId/locations/us-central1/connections/apphosting-us-central1'',
      disabled = False, createTime = js ''0'', updateTime = js ''1'',
      installationState =
        \<lparr>stage = COMPLETE, message = js ''complete'', actionUri = js ''https://google.com''\<rparr>,
      reconciling = False, githubConfig = None\<rparr>"

definition repo0 :: GitRepositoryLink where
  "repo0 = GitRepositoryLink (js ''repo0'') (js ''https://github.com/test/repo0.git'') []"

text \<open>``creates a connection if it doesn't exist''.\<close>

definition createsConnection :: "nat Collaborators" where
  "createsConnection =
     sandbox\<lparr>devConnect_getConnection := (\<lambda>_ _ _ n.
                (if n = 0 then Inl (FirebaseError (js ''error'') (Some 404)) else Inr completeConn,
                 Suc n)),
             devConnect_createConnection := (\<lambda>_ _ _ _ n. (Inr op0, n)),
             poller_pollOperation_Connection := (\<lambda>_ n. (Inr pendingConn, n)),
             promptOnce := (\<lambda>_ n. (Inr (js ''any key''), n))\<rparr>"

text \<open>``creates repository if it doesn't exist''.\<close>

definition createsRepository :: "nat Collaborators" where
  "createsRepository =
     sandbox\<lparr>devConnect_getConnection := (\<lambda>_ _ _ n. (Inr completeConn, n)),
             devConnect_getGitRepositoryLink := (\<lambda>_ _ _ _ n.
                (Inl (FirebaseError (js ''error'') (Some 404)), n)),
             devConnect_createGitRepositoryLink := (\<lambda>_ _ _ _ _ n.
                (Inr \<lparr>name = js ''op'', done' = False\<rparr>, n)),
             poller_pollOperation_GitRepositoryLink := (\<lambda>_ n. (Inr repo0, n))\<rparr>"

text \<open>``re-uses existing repository it already exists''.\<close>

definition reusesRepository :: "nat Collaborators" where
  "reusesRepository =
     sandbox\<lparr>devConnect_getConnection := (\<lambda>_ _ _ n. (Inr completeConn, n)),
             devConnect_getGitRepositoryLink := (\<lambda>_ _ _ _ n. (Inr repo0, n))\<rparr>"

text \<open>A connection whose app installation is pending, and a service on which it stays
  so after the human has confirmed.\<close>

definition installPendingConn :: Connection where
  "installPendingConn =
     pendingConn\<lparr>installationState :=
       \<lparr>stage = PENDING_USER_INSTALL_APP, message = js ''pending'',
        actionUri = js ''https://github.com/apps/firebase/install_v2?state=1''\<rparr>\<rparr>"

definition installStaysPending :: "nat Collaborators" where
  "installStaysPending =
     sandbox\<lparr>devConnect_getConnection := (\<lambda>_ _ _ n. (Inr installPendingConn, n)),
             promptOnce := (\<lambda>_ n. (Inr (js ''any key''), n))\<rparr>"

text \<open>The first test with a browser popup that opens, and a service on which the
  sentinel connection exists with its app installation pending.\<close>

definition authorizes :: "nat Collaborators" where
  "authorizes =
     createsConnection\<lparr>utils_openInBrowserPopup := (\<lambda>_ _ n. (Inr (js ''http://localhost:9005''), n))\<rparr>"

definition oauthConnAwaitingInstall :: Connection where
  "oauthConnAwaitingInstall =
     (mockConn APPHOSTING_OAUTH_CONN_NAME)
       \<lparr>installationState :=
          \<lparr>stage = PENDING_USER_INSTALL_APP, message = js ''pending'',
           actionUri = js ''https://github.com/apps/firebase/install_v2?state=1''\<rparr>\<rparr>"

definition sentinelAwaitsInstall :: "nat Collaborators" where
  "sentinelAwaitsInstall =
     sandbox\<lparr>devConnect_getConnection := (\<lambda>_ _ _ n. (Inr oauthConnAwaitingInstall, n))\<rparr>"



section \<open>Properties of the string helpers\<close>

lemma js_Nil [simp]: "js [] = []"
  by (simp add: js_def)

lemma js_Cons [simp]: "js (c # cs) = of_char c # js cs"
  by (simp add: js_def)

lemma literal_append [simp]: "literal p (p @ r) = Some r"
  by (simp add: literal_def)

lemma literal_Some_iff: "literal p s = Some r \<longleftrightarrow> s = p @ r"
  by (auto simp: literal_def) (metis append_take_drop_id)

lemma notSlashPlus_segment:
  assumes "segment x" and "r = [] \<or> hd r = slash"
  shows "notSlashPlus (x @ r) = Some (x, r)"
proof -
  have all: "\<forall>c\<in>set x. c \<noteq> slash" and ne: "x \<noteq> []"
    using assms(1) by (auto simp: segment_def)
  have "takeWhile (\<lambda>c. c \<noteq> slash) r = []" "dropWhile (\<lambda>c. c \<noteq> slash) r = r"
    using assms(2) by (cases r; simp)+
  then have "takeWhile (\<lambda>c. c \<noteq> slash) (x @ r) = x"
    "dropWhile (\<lambda>c. c \<noteq> slash) (x @ r) = r"
    using all by (simp_all add: takeWhile_append2 dropWhile_append2)
  then show ?thesis
    using ne by (simp add: notSlashPlus_def)
qed

lemma notSlashPlus_whole: "segment x \<Longrightarrow> notSlashPlus x = Some (x, [])"
  using notSlashPlus_segment[of x "[]"] by simp

lemma notSlashPlus_Some_iff:
  "notSlashPlus s = Some (x, r) \<longleftrightarrow> s = x @ r \<and> segment x \<and> (r = [] \<or> hd r = slash)"
proof
  assume h: "notSlashPlus s = Some (x, r)"
  then have x: "x = takeWhile (\<lambda>c. c \<noteq> slash) s" and r: "r = dropWhile (\<lambda>c. c \<noteq> slash) s"
    and ne: "x \<noteq> []"
    by (auto simp: notSlashPlus_def Let_def split: if_splits)
  have "slash \<notin> set x"
    using x by (auto dest: set_takeWhileD)
  moreover have "r = [] \<or> hd r = slash"
    using r hd_dropWhile[of "\<lambda>c. c \<noteq> slash" s] by auto
  ultimately show "s = x @ r \<and> segment x \<and> (r = [] \<or> hd r = slash)"
    using x r ne by (simp add: segment_def)
next
  assume "s = x @ r \<and> segment x \<and> (r = [] \<or> hd r = slash)"
  then show "notSlashPlus s = Some (x, r)"
    using notSlashPlus_segment by blast
qed

lemma hd_slash_literals [simp]:
  "hd (js ''/locations/'' @ t) = slash" "hd (js ''/connections/'' @ t) = slash"
  by (simp_all add: slash_def)

lemma parseConnectionName_iff:
  "parseConnectionName s = Some (ConnectionNameParts p l i) \<longleftrightarrow>
     s = connectionName p l i \<and> segment p \<and> segment l \<and> segment i"
proof
  assume "parseConnectionName s = Some (ConnectionNameParts p l i)"
  then obtain r1 r2 r3 r4 r5 r6 where
    "literal (js ''projects/'') s = Some r1" "notSlashPlus r1 = Some (p, r2)"
    "literal (js ''/locations/'') r2 = Some r3" "notSlashPlus r3 = Some (l, r4)"
    "literal (js ''/connections/'') r4 = Some r5" "notSlashPlus r5 = Some (i, r6)"
    "r6 = []"
    unfolding parseConnectionName_def
    by (auto split: Option.bind_splits if_splits)
  then show "s = connectionName p l i \<and> segment p \<and> segment l \<and> segment i"
    unfolding literal_Some_iff notSlashPlus_Some_iff connectionName_def by simp
next
  assume "s = connectionName p l i \<and> segment p \<and> segment l \<and> segment i"
  then show "parseConnectionName s = Some (ConnectionNameParts p l i)"
    unfolding parseConnectionName_def connectionName_def
    by (simp add: notSlashPlus_segment notSlashPlus_whole del: js_Cons)
qed

section \<open>Backtracking and search\<close>

lemma dotPlusUpTo_None_iff:
  "dotPlusUpTo k s n = None \<longleftrightarrow> (\<forall>j. 0 < j \<and> j \<le> n \<longrightarrow> k (drop j s) = None)"
proof (induction n)
  case 0
  then show ?case by simp
next
  case (Suc n)
  show ?case
  proof (cases "k (drop (Suc n) s)")
    case None
    then show ?thesis
      using Suc by (auto simp: le_Suc_eq)
  next
    case (Some a)
    then show ?thesis by auto
  qed
qed

lemma dotPlusUpTo_Some_iff:
  "dotPlusUpTo k s n = Some (g, a) \<longleftrightarrow>
     (\<exists>m. 0 < m \<and> m \<le> n \<and> g = take m s \<and> k (drop m s) = Some a \<and>
          (\<forall>j. m < j \<and> j \<le> n \<longrightarrow> k (drop j s) = None))"
proof (induction n)
  case 0
  then show ?case by simp
next
  case (Suc n)
  show ?case
  proof (cases "k (drop (Suc n) s)")
    case None
    have "dotPlusUpTo k s (Suc n) = dotPlusUpTo k s n"
      using None by simp
    moreover have "(\<exists>m. 0 < m \<and> m \<le> Suc n \<and> g = take m s \<and> k (drop m s) = Some a \<and>
          (\<forall>j. m < j \<and> j \<le> Suc n \<longrightarrow> k (drop j s) = None)) \<longleftrightarrow>
        (\<exists>m. 0 < m \<and> m \<le> n \<and> g = take m s \<and> k (drop m s) = Some a \<and>
          (\<forall>j. m < j \<and> j \<le> n \<longrightarrow> k (drop j s) = None))" (is "?L \<longleftrightarrow> ?R")
    proof
      assume ?L
      then obtain m where m: "0 < m" "m \<le> Suc n" "g = take m s" "k (drop m s) = Some a"
        "\<forall>j. m < j \<and> j \<le> Suc n \<longrightarrow> k (drop j s) = None" by blast
      have "m \<noteq> Suc n" using m(4) None by auto
      with m show ?R by (intro exI[of _ m]) auto
    next
      assume ?R
      then obtain m where m: "0 < m" "m \<le> n" "g = take m s" "k (drop m s) = Some a"
        "\<forall>j. m < j \<and> j \<le> n \<longrightarrow> k (drop j s) = None" by blast
      have "\<forall>j. m < j \<and> j \<le> Suc n \<longrightarrow> k (drop j s) = None"
        using m(5) None by (auto simp: le_Suc_eq)
      with m show ?L by (intro exI[of _ m]) auto
    qed
    ultimately show ?thesis
      using Suc by simp
  next
    case (Some b)
    have "(\<exists>m. 0 < m \<and> m \<le> Suc n \<and> g = take m s \<and> k (drop m s) = Some a \<and>
          (\<forall>j. m < j \<and> j \<le> Suc n \<longrightarrow> k (drop j s) = None)) \<longleftrightarrow>
        (g = take (Suc n) s \<and> b = a)" (is "?L \<longleftrightarrow> ?R")
    proof
      assume ?L
      then obtain m where m: "0 < m" "m \<le> Suc n" "g = take m s" "k (drop m s) = Some a"
        "\<forall>j. m < j \<and> j \<le> Suc n \<longrightarrow> k (drop j s) = None" by blast
      have "m = Suc n"
      proof (rule ccontr)
        assume "m \<noteq> Suc n"
        then have "m < Suc n" using m(2) by simp
        then have "k (drop (Suc n) s) = None" using m(5) by simp
        then show False using Some by simp
      qed
      then show ?R using m Some by simp
    next
      assume ?R
      then show ?L using Some by (intro exI[of _ "Suc n"]) auto
    qed
    then show ?thesis
      using Some by auto
  qed
qed

lemma lineFree_take_run:
  assumes "m \<le> length (takeWhile (\<lambda>c. \<not> isLineTerminator c) s)"
  shows "lineFree (take m s)" and "m \<le> length s"
proof -
  let ?t = "takeWhile (\<lambda>c. \<not> isLineTerminator c) s"
  have s: "s = ?t @ dropWhile (\<lambda>c. \<not> isLineTerminator c) s"
    by simp
  have "take m s = take m (?t @ dropWhile (\<lambda>c. \<not> isLineTerminator c) s)"
    by simp
  also have "\<dots> = take m ?t"
    using assms by (simp only: take_append) simp
  finally have "take m s = take m ?t" .
  moreover have "lineFree ?t"
    by (auto simp: lineFree_def dest: set_takeWhileD)
  ultimately show "lineFree (take m s)"
    by (auto simp: lineFree_def dest: in_set_takeD)
  have "length ?t \<le> length s"
    by (rule length_takeWhile_le)
  then show "m \<le> length s" using assms by simp
qed

lemma run_prefix:
  "lineFree g \<Longrightarrow> length g \<le> length (takeWhile (\<lambda>c. \<not> isLineTerminator c) (g @ r))"
  by (simp add: lineFree_def takeWhile_append2)

lemma dotPlus_Some_iff:
  "dotPlus k s = Some (g, a) \<longleftrightarrow>
     g \<noteq> [] \<and> lineFree g \<and>
     (\<exists>r. s = g @ r \<and> k r = Some a \<and>
          (\<forall>g' r'. s = g' @ r' \<and> lineFree g' \<and> length g < length g' \<longrightarrow> k r' = None))"
  (is "?L \<longleftrightarrow> ?R")
proof
  let ?n = "length (takeWhile (\<lambda>c. \<not> isLineTerminator c) s)"
  assume ?L
  then obtain m where m: "0 < m" "m \<le> ?n" "g = take m s" "k (drop m s) = Some a"
    "\<forall>j. m < j \<and> j \<le> ?n \<longrightarrow> k (drop j s) = None"
    unfolding dotPlus_def dotPlusUpTo_Some_iff by blast
  have len: "m \<le> length s" and lf: "lineFree g"
    using lineFree_take_run[OF m(2)] m(3) by simp_all
  have lg: "length g = m" using len m(3) by simp
  have max: "k r' = None" if "s = g' @ r'" "lineFree g'" "length g < length g'" for g' r'
  proof -
    have "length g' \<le> ?n" using run_prefix[OF that(2)] that(1) by simp
    then have "k (drop (length g') s) = None" using m(5) that(3) lg by simp
    then show ?thesis using that(1) by simp
  qed
  have "s = g @ drop m s" using m(3) by simp
  then show ?R using m(1,4) lg lf max by (metis length_greater_0_conv)
next
  let ?n = "length (takeWhile (\<lambda>c. \<not> isLineTerminator c) s)"
  assume ?R
  then obtain r where r: "g \<noteq> []" "lineFree g" "s = g @ r" "k r = Some a"
    "\<forall>g' r'. s = g' @ r' \<and> lineFree g' \<and> length g < length g' \<longrightarrow> k r' = None"
    by blast
  have 1: "0 < length g" using r(1) by simp
  have 2: "length g \<le> ?n" using run_prefix[OF r(2)] r(3) by simp
  have 3: "g = take (length g) s" "k (drop (length g) s) = Some a" using r(3,4) by simp_all
  have 4: "k (drop j s) = None" if "length g < j" "j \<le> ?n" for j
  proof -
    have "lineFree (take j s)" "j \<le> length s" using lineFree_take_run[OF that(2)] by simp_all
    moreover have "s = take j s @ drop j s" by simp
    ultimately show ?thesis using r(5) that(1) by (metis length_take min.absorb2)
  qed
  show ?L
    unfolding dotPlus_def dotPlusUpTo_Some_iff
    using 1 2 3 4 by (intro exI[of _ "length g"]) blast
qed

lemma dotPlus_None_iff:
  "dotPlus k s = None \<longleftrightarrow> (\<forall>g r. s = g @ r \<and> g \<noteq> [] \<and> lineFree g \<longrightarrow> k r = None)"
  (is "?L \<longleftrightarrow> ?R")
proof
  let ?n = "length (takeWhile (\<lambda>c. \<not> isLineTerminator c) s)"
  assume l: ?L
  show ?R
  proof (intro allI impI)
    fix g r assume h: "s = g @ r \<and> g \<noteq> [] \<and> lineFree g"
    then have "0 < length g" "length g \<le> ?n" using run_prefix[of g r] by simp_all
    then have "k (drop (length g) s) = None"
      using l unfolding dotPlus_def dotPlusUpTo_None_iff by blast
    then show "k r = None" using h by simp
  qed
next
  let ?n = "length (takeWhile (\<lambda>c. \<not> isLineTerminator c) s)"
  assume r: ?R
  have "k (drop j s) = None" if "0 < j" "j \<le> ?n" for j
  proof -
    have "lineFree (take j s)" "j \<le> length s" using lineFree_take_run[OF that(2)] by simp_all
    moreover have "s = take j s @ drop j s" by simp
    moreover have "take j s \<noteq> []" using that(1) \<open>j \<le> length s\<close> by auto
    ultimately show ?thesis using r by blast
  qed
  then show ?L
    unfolding dotPlus_def dotPlusUpTo_None_iff by blast
qed

lemma dotPlus_matches_iff:
  "dotPlus k s \<noteq> None \<longleftrightarrow> (\<exists>g r. s = g @ r \<and> g \<noteq> [] \<and> lineFree g \<and> k r \<noteq> None)"
  by (simp add: dotPlus_None_iff)

lemma searchFrom_None_iff:
  "searchFrom rx s = None \<longleftrightarrow> (\<forall>pre r. s = pre @ r \<longrightarrow> rx r = None)"
proof (induction s)
  case Nil
  then show ?case by simp
next
  case (Cons c cs)
  show ?case
  proof (cases "rx (c # cs)")
    case None
    have "(\<forall>pre r. c # cs = pre @ r \<longrightarrow> rx r = None) \<longleftrightarrow> (\<forall>pre r. cs = pre @ r \<longrightarrow> rx r = None)"
      using None by (auto simp: Cons_eq_append_conv) 
    then show ?thesis using None Cons by simp
  next
    case (Some a)
    then show ?thesis by (auto intro: exI[of _ "[]"])
  qed
qed

lemma searchFrom_matches_iff:
  "searchFrom rx s \<noteq> None \<longleftrightarrow> (\<exists>pre r. s = pre @ r \<and> rx r \<noteq> None)"
  by (simp add: searchFrom_None_iff)

text \<open>An occurrence of a pattern that starts before another one lies in the text up to
  the last code unit but one of the later occurrence.\<close>

lemma occurs_earlier:
  assumes "pre @ pat @ rest = pre' @ pat @ x" and "length pre' < length pre" and "pat \<noteq> []"
  shows "sublist pat (pre @ butlast pat)"
proof -
  let ?n = "length pat"
  from assms(1) obtain us where
    "(pre = pre' @ us \<and> us @ (pat @ rest) = pat @ x) \<or>
     (pre @ us = pre' \<and> pat @ rest = us @ (pat @ x))"
    using append_eq_append_conv2[of pre "pat @ rest" pre' "pat @ x"] by blast
  then have us: "pre = pre' @ us" "us @ pat @ rest = pat @ x"
    using assms(2) by auto
  have ne: "us \<noteq> []"
    using us(1) assms(2) by auto
  have e: "us @ pat @ rest = (us @ butlast pat) @ ([last pat] @ rest)"
    by (metis append_assoc append_butlast_last_id assms(3))
  have n: "?n \<le> length (us @ butlast pat)"
    using ne by (cases us) simp_all
  have "take ?n (us @ pat @ rest) = pat"
    by (simp add: us(2))
  then have "take ?n ((us @ butlast pat) @ ([last pat] @ rest)) = pat"
    by (simp only: e)
  moreover have "take ?n ((us @ butlast pat) @ ([last pat] @ rest)) = take ?n (us @ butlast pat)"
    using n by (simp only: take_append) simp
  ultimately have "take ?n (us @ butlast pat) = pat"
    by (simp only:)
  then have "prefix pat (us @ butlast pat)"
    by (metis take_is_prefix)
  then obtain z where "us @ butlast pat = pat @ z"
    by (auto simp: prefix_def)
  then have "pre' @ us @ butlast pat = pre' @ pat @ z"
    by simp
  then have "sublist pat (pre' @ us @ butlast pat)"
    by (simp only: sublist_appendI)
  then show ?thesis
    by (simp add: us(1))
qed

lemma searchFrom_Some_iff:
  "searchFrom rx s = Some a \<longleftrightarrow>
     (\<exists>pre r. s = pre @ r \<and> rx r = Some a \<and>
        (\<forall>pre' r'. s = pre' @ r' \<and> length pre' < length pre \<longrightarrow> rx r' = None))"
proof (induction s)
  case Nil
  then show ?case by simp
next
  case (Cons c cs)
  show ?case
  proof (cases "rx (c # cs)")
    case None
    have "(\<exists>pre r. c # cs = pre @ r \<and> rx r = Some a \<and>
        (\<forall>pre' r'. c # cs = pre' @ r' \<and> length pre' < length pre \<longrightarrow> rx r' = None)) \<longleftrightarrow>
      (\<exists>pre r. cs = pre @ r \<and> rx r = Some a \<and>
        (\<forall>pre' r'. cs = pre' @ r' \<and> length pre' < length pre \<longrightarrow> rx r' = None))"
      (is "?L \<longleftrightarrow> ?R")
    proof
      assume ?L
      then obtain pre r where h: "c # cs = pre @ r" "rx r = Some a"
        "\<forall>pre' r'. c # cs = pre' @ r' \<and> length pre' < length pre \<longrightarrow> rx r' = None" by blast
      have "pre \<noteq> []" using h(1,2) None by auto
      then obtain p where p: "pre = c # p" "cs = p @ r" using h(1) by (cases pre) auto
      have "rx r' = None" if "cs = pre' @ r'" "length pre' < length p" for pre' r'
        using h(3) that p(1) by (metis Cons_eq_appendI length_Cons Suc_less_eq)
      then show ?R using p(2) h(2) by blast
    next
      assume ?R
      then obtain pre r where h: "cs = pre @ r" "rx r = Some a"
        "\<forall>pre' r'. cs = pre' @ r' \<and> length pre' < length pre \<longrightarrow> rx r' = None" by blast
      have "rx r' = None" if "c # cs = pre' @ r'" "length pre' < length (c # pre)" for pre' r'
      proof (cases pre')
        case Nil
        then show ?thesis using that(1) None by simp
      next
        case (Cons x xs)
        then show ?thesis using that h(3) by simp
      qed
      then show ?L using h(1,2) by (intro exI[of _ "c # pre"] exI[of _ r]) simp
    qed
    then show ?thesis using None Cons by simp
  next
    case (Some b)
    have "(\<exists>pre r. c # cs = pre @ r \<and> rx r = Some a \<and>
        (\<forall>pre' r'. c # cs = pre' @ r' \<and> length pre' < length pre \<longrightarrow> rx r' = None)) \<longleftrightarrow> b = a"
      (is "?L \<longleftrightarrow> ?R")
    proof
      assume ?L
      then obtain pre r where h: "c # cs = pre @ r" "rx r = Some a"
        "\<forall>pre' r'. c # cs = pre' @ r' \<and> length pre' < length pre \<longrightarrow> rx r' = None" by blast
      have "pre = []"
      proof (rule ccontr)
        assume "pre \<noteq> []"
        then have "rx (c # cs) = None" using h(3)[rule_format, of "[]" "c # cs"] by simp
        then show False using Some by simp
      qed
      then show ?R using h(1,2) Some by simp
    next
      assume ?R
      then show ?L using Some by (intro exI[of _ "[]"] exI[of _ "c # cs"]) simp
    qed
    then show ?thesis using Some by auto
  qed
qed

section \<open>Repository slugs\<close>

lemma anyChar_Some_iff: "anyChar s = Some r \<longleftrightarrow> (\<exists>c. \<not> isLineTerminator c \<and> s = c # r)"
  by (auto simp: anyChar_def split: list.splits)

lemma dotGit_Some_iff:
  "do { t1 \<leftarrow> anyChar t; literal (js ''git'') t1 } = Some x \<longleftrightarrow>
     (\<exists>c. \<not> isLineTerminator c \<and> t = c # js ''git'' @ x)"
  by (cases t) (auto simp: anyChar_def literal_Some_iff simp del: js_Cons)

lemma lineFree_append [simp]: "lineFree (a @ b) \<longleftrightarrow> lineFree a \<and> lineFree b"
  by (auto simp: lineFree_def)

lemma lineFree_Cons [simp]: "lineFree (c # b) \<longleftrightarrow> \<not> isLineTerminator c \<and> lineFree b"
  by (auto simp: lineFree_def)

lemma lineFree_Nil [simp]: "lineFree []"
  by (simp add: lineFree_def)

lemma repoSlugPattern_Some_iff:
  "repoSlugPattern s = Some g \<longleftrightarrow>
     (\<exists>c1 c2 post. \<not> isLineTerminator c1 \<and> \<not> isLineTerminator c2 \<and> g \<noteq> [] \<and> lineFree g \<and>
        s = js ''github'' @ c1 # js ''com/'' @ g @ c2 # js ''git'' @ post \<and>
        (\<forall>g' r'. g @ c2 # js ''git'' @ post = g' @ r' \<and> lineFree g' \<and> length g < length g' \<longrightarrow>
           (\<forall>c. isLineTerminator c \<or> (\<forall>x. r' \<noteq> c # js ''git'' @ x))))"
  (is "?L \<longleftrightarrow> ?R")
proof
  assume ?L
  then obtain r1 r2 r3 x where h: "literal (js ''github'') s = Some r1" "anyChar r1 = Some r2"
    "literal (js ''com/'') r2 = Some r3"
    "dotPlus (\<lambda>t. do { t1 \<leftarrow> anyChar t; literal (js ''git'') t1 }) r3 = Some (g, x)"
    unfolding repoSlugPattern_def by (auto split: Option.bind_splits)
  from h(4) obtain r where r: "g \<noteq> []" "lineFree g" "r3 = g @ r"
    "do { t1 \<leftarrow> anyChar r; literal (js ''git'') t1 } = Some x"
    "\<forall>g' r'. r3 = g' @ r' \<and> lineFree g' \<and> length g < length g' \<longrightarrow>
       do { t1 \<leftarrow> anyChar r'; literal (js ''git'') t1 } = None"
    unfolding dotPlus_Some_iff by blast
  from r(4) obtain c2 where c2: "\<not> isLineTerminator c2" "r = c2 # js ''git'' @ x"
    unfolding dotGit_Some_iff by blast
  from h(2) obtain c1 where c1: "\<not> isLineTerminator c1" "r1 = c1 # r2"
    unfolding anyChar_Some_iff by blast
  have s: "s = js ''github'' @ c1 # js ''com/'' @ g @ c2 # js ''git'' @ x"
    using h(1,3) c1(2) r(3) c2(2) unfolding literal_Some_iff by simp
  have max: "\<forall>g' r'. g @ c2 # js ''git'' @ x = g' @ r' \<and> lineFree g' \<and> length g < length g' \<longrightarrow>
           (\<forall>c. isLineTerminator c \<or> (\<forall>y. r' \<noteq> c # js ''git'' @ y))"
  proof (intro allI impI)
    fix g' r' c
    assume a: "g @ c2 # js ''git'' @ x = g' @ r' \<and> lineFree g' \<and> length g < length g'"
    then have "do { t1 \<leftarrow> anyChar r'; literal (js ''git'') t1 } = None"
      using r(5) r(3) c2(2) by blast
    then have "\<not> (\<exists>y. \<exists>c. \<not> isLineTerminator c \<and> r' = c # js ''git'' @ y)"
      using dotGit_Some_iff[of r'] by (metis option.distinct(1))
    then show "isLineTerminator c \<or> (\<forall>y. r' \<noteq> c # js ''git'' @ y)" by blast
  qed
  show ?R
    using c1(1) c2(1) r(1,2) s max by blast
next
  assume ?R
  then obtain c1 c2 post where h: "\<not> isLineTerminator c1" "\<not> isLineTerminator c2" "g \<noteq> []"
    "lineFree g" "s = js ''github'' @ c1 # js ''com/'' @ g @ c2 # js ''git'' @ post"
    "\<forall>g' r'. g @ c2 # js ''git'' @ post = g' @ r' \<and> lineFree g' \<and> length g < length g' \<longrightarrow>
           (\<forall>c. isLineTerminator c \<or> (\<forall>x. r' \<noteq> c # js ''git'' @ x))"
    by blast
  have max: "\<forall>g' r'. g @ c2 # js ''git'' @ post = g' @ r' \<and> lineFree g' \<and> length g < length g' \<longrightarrow>
       do { t1 \<leftarrow> anyChar r'; literal (js ''git'') t1 } = None"
  proof (intro allI impI)
    fix g' r'
    assume a: "g @ c2 # js ''git'' @ post = g' @ r' \<and> lineFree g' \<and> length g < length g'"
    show "do { t1 \<leftarrow> anyChar r'; literal (js ''git'') t1 } = None"
    proof (cases "do { t1 \<leftarrow> anyChar r'; literal (js ''git'') t1 }")
      case None
      then show ?thesis .
    next
      case (Some y)
      then obtain c where "\<not> isLineTerminator c" "r' = c # js ''git'' @ y"
        unfolding dotGit_Some_iff by blast
      then show ?thesis using h(6) a by blast
    qed
  qed
  have k: "do { t1 \<leftarrow> anyChar (c2 # js ''git'' @ post); literal (js ''git'') t1 } = Some post"
    unfolding dotGit_Some_iff using h(2) by blast
  have "dotPlus (\<lambda>t. do { t1 \<leftarrow> anyChar t; literal (js ''git'') t1 }) (g @ c2 # js ''git'' @ post)
      = Some (g, post)"
    unfolding dotPlus_Some_iff using h(3,4) k max by blast
  then show ?L
    unfolding repoSlugPattern_def h(5)
    by (simp add: anyChar_def h(1) del: js_Cons)
qed

lemma replaceAll_single:
  "replaceAll [a] [b] s = map (\<lambda>c. if c = a then b else c) s"
proof (induction s)
  case Nil
  then show ?case by (subst replaceAll.simps) simp
next
  case (Cons x xs)
  then show ?case by (subst replaceAll.simps) simp
qed

lemma generateRepositoryId_map:
  "generateRepositoryId s =
     map_option (map (\<lambda>c. if c = slash then dash else c)) (extractRepoSlugFromUri s)"
proof -
  have "js ''/'' = [slash]" "js ''-'' = [dash]"
    by (simp_all add: slash_def dash_def)
  moreover have "replaceAll [slash] [dash] = map (\<lambda>c. if c = slash then dash else c)"
    by (rule ext) (rule replaceAll_single)
  ultimately show ?thesis
    by (simp only: generateRepositoryId_def)
qed

lemma repoSlugPattern_github:
  assumes "x \<noteq> []" and "lineFree x"
  shows "repoSlugPattern (js ''github.com/'' @ x @ js ''.git'') = Some x"
proof -
  let ?dot = "of_char CHR ''.'' :: 16 word"
  have dot: "\<not> isLineTerminator ?dot"
    by (simp add: isLineTerminator_def)
  have eq: "js ''github.com/'' @ x @ js ''.git'' =
      js ''github'' @ ?dot # js ''com/'' @ x @ ?dot # js ''git'' @ []"
    by simp
  have max: "\<forall>g' r'. x @ ?dot # js ''git'' @ [] = g' @ r' \<and> lineFree g' \<and> length x < length g' \<longrightarrow>
           (\<forall>c. isLineTerminator c \<or> (\<forall>y. r' \<noteq> c # js ''git'' @ y))"
  proof (intro allI impI)
    fix g' r' c
    assume a: "x @ ?dot # js ''git'' @ [] = g' @ r' \<and> lineFree g' \<and> length x < length g'"
    then have "length (x @ ?dot # js ''git'' @ []) = length (g' @ r')" by simp
    then have "length r' < 4" using a by simp
    then have "\<forall>y. r' \<noteq> c # js ''git'' @ y" by auto
    then show "isLineTerminator c \<or> (\<forall>y. r' \<noteq> c # js ''git'' @ y)" by blast
  qed
  show ?thesis
    unfolding repoSlugPattern_Some_iff
    using dot assms eq max by blast
qed

lemma searchFrom_hit: "rx s = Some a \<Longrightarrow> searchFrom rx s = Some a"
  by (cases s) simp_all

lemma extractRepoSlugFromUri_github:
  assumes "x \<noteq> []" and "lineFree x"
  shows "extractRepoSlugFromUri (js ''https://github.com/'' @ x @ js ''.git'') = Some x"
proof -
  have skip: "searchFrom repoSlugPattern (js ''https://'' @ r) = searchFrom repoSlugPattern r" for r
    by (simp add: repoSlugPattern_def literal_def)
  have "searchFrom repoSlugPattern (js ''https://github.com/'' @ x @ js ''.git'') =
      searchFrom repoSlugPattern (js ''github.com/'' @ x @ js ''.git'')"
    using skip[of "js ''github.com/'' @ x @ js ''.git''"] by simp
  also have "\<dots> = Some x"
    using repoSlugPattern_github[OF assms] by (rule searchFrom_hit)
  finally show ?thesis
    by (simp only: extractRepoSlugFromUri_def)
qed

lemma extractRepoSlugFromUri_Some_shape:
  assumes "extractRepoSlugFromUri s = Some g"
  shows "\<exists>a b c d. s = a @ js ''github'' @ b @ js ''com/'' @ c @ js ''git'' @ d"
proof -
  from assms obtain pre r where r: "s = pre @ r" "repoSlugPattern r = Some g"
    unfolding extractRepoSlugFromUri_def searchFrom_Some_iff by blast
  from r(2) obtain c1 c2 post where
    "r = js ''github'' @ c1 # js ''com/'' @ g @ c2 # js ''git'' @ post"
    unfolding repoSlugPattern_Some_iff by blast
  then have "s = pre @ js ''github'' @ [c1] @ js ''com/'' @ (g @ [c2]) @ js ''git'' @ post"
    using r(1) by simp
  then show ?thesis by blast
qed

lemma extractRepoSlugFromUri_nonempty:
  "extractRepoSlugFromUri s = Some g \<Longrightarrow> g \<noteq> []"
  unfolding extractRepoSlugFromUri_def searchFrom_Some_iff repoSlugPattern_Some_iff by blast

lemma generateRepositoryId_nonempty:
  "generateRepositoryId s = Some rid \<Longrightarrow> rid \<noteq> []"
  unfolding generateRepositoryId_map using extractRepoSlugFromUri_nonempty by auto

lemma repoSlugPattern_matches_iff:
  "repoSlugPattern s \<noteq> None \<longleftrightarrow>
     (\<exists>c1 t c2 d. t \<noteq> [] \<and> lineFree t \<and> \<not> isLineTerminator c1 \<and> \<not> isLineTerminator c2 \<and>
        s = js ''github'' @ c1 # js ''com/'' @ t @ c2 # js ''git'' @ d)"
  (is "?L \<longleftrightarrow> ?R")
proof
  assume ?L
  then obtain g where "repoSlugPattern s = Some g"
    by blast
  then show ?R
    unfolding repoSlugPattern_Some_iff by blast
next
  let ?k = "\<lambda>t. do { t1 \<leftarrow> anyChar t; literal (js ''git'') t1 }"
  assume ?R
  then obtain c1 t c2 d where h: "t \<noteq> []" "lineFree t" "\<not> isLineTerminator c1"
    "\<not> isLineTerminator c2" "s = js ''github'' @ c1 # js ''com/'' @ t @ c2 # js ''git'' @ d"
    by blast
  have "?k (c2 # js ''git'' @ d) = Some d"
    unfolding dotGit_Some_iff using h(4) by blast
  then have "\<exists>g r. t @ c2 # js ''git'' @ d = g @ r \<and> g \<noteq> [] \<and> lineFree g \<and> ?k r \<noteq> None"
    using h(1,2) by (intro exI[of _ t] exI[of _ "c2 # js ''git'' @ d"]) simp
  then have "dotPlus ?k (t @ c2 # js ''git'' @ d) \<noteq> None"
    by (simp only: dotPlus_matches_iff)
  then obtain g x where "dotPlus ?k (t @ c2 # js ''git'' @ d) = Some (g, x)"
    by (cases "dotPlus ?k (t @ c2 # js ''git'' @ d)") auto
  then have "repoSlugPattern s = Some g"
    unfolding repoSlugPattern_def h(5) by (simp add: anyChar_def h(3) del: js_Cons)
  then show ?L
    by simp
qed

lemma extractRepoSlugFromUri_None_iff:
  "extractRepoSlugFromUri s = None \<longleftrightarrow>
     (\<nexists>a c1 t c2 d. t \<noteq> [] \<and> lineFree t \<and> \<not> isLineTerminator c1 \<and> \<not> isLineTerminator c2 \<and>
        s = a @ js ''github'' @ c1 # js ''com/'' @ t @ c2 # js ''git'' @ d)"
proof -
  have "extractRepoSlugFromUri s \<noteq> None \<longleftrightarrow> (\<exists>a r. s = a @ r \<and> repoSlugPattern r \<noteq> None)"
    by (simp only: extractRepoSlugFromUri_def searchFrom_matches_iff)
  also have "\<dots> \<longleftrightarrow>
     (\<exists>a c1 t c2 d. t \<noteq> [] \<and> lineFree t \<and> \<not> isLineTerminator c1 \<and> \<not> isLineTerminator c2 \<and>
        s = a @ js ''github'' @ c1 # js ''com/'' @ t @ c2 # js ''git'' @ d)"
    unfolding repoSlugPattern_matches_iff by blast
  finally show ?thesis
    by blast
qed

lemma extractRepoSlugFromUri_Some_capture:
  assumes "extractRepoSlugFromUri s = Some g"
  shows "g \<noteq> [] \<and> lineFree g \<and>
     (\<exists>a c1 c2 d. \<not> isLineTerminator c1 \<and> \<not> isLineTerminator c2 \<and>
        s = a @ js ''github'' @ c1 # js ''com/'' @ g @ c2 # js ''git'' @ d)"
proof -
  from assms obtain a r where r: "s = a @ r" "repoSlugPattern r = Some g"
    unfolding extractRepoSlugFromUri_def searchFrom_Some_iff by blast
  from r(2) obtain c1 c2 d where "\<not> isLineTerminator c1" "\<not> isLineTerminator c2" "g \<noteq> []"
    "lineFree g" "r = js ''github'' @ c1 # js ''com/'' @ g @ c2 # js ''git'' @ d"
    unfolding repoSlugPattern_Some_iff by blast
  then show ?thesis
    using r(1) by blast
qed

text \<open>After \<^verbatim>\<open>.git\<close>, a later \<^verbatim>\<open>git\<close> with a code unit before it lies in what
  follows.\<close>

lemma later_git:
  assumes "g @ c2 # js ''git'' @ post = g' @ c # js ''git'' @ x" and "length g < length g'"
  shows "sublist (js ''git'') post"
proof -
  define A where "A = c2 # js ''git'' @ post"
  define B where "B = c # js ''git'' @ x"
  have "g @ A = g' @ B"
    using assms(1) by (simp only: A_def B_def)
  then obtain us where "(g = g' @ us \<and> us @ A = B) \<or> (g @ us = g' \<and> A = us @ B)"
    using append_eq_append_conv2[of g A g' B] by blast
  then have "g @ us = g' \<and> A = us @ B"
    using assms(2) by auto
  then have us: "g @ us = g'" "c2 # js ''git'' @ post = us @ c # js ''git'' @ x"
    by (simp_all only: A_def B_def)
  have ne: "us \<noteq> []"
    using us(1) assms(2) by auto
  then obtain u1 us1 where u1: "us = u1 # us1"
    by (cases us) auto
  have 1: "js ''git'' @ post = us1 @ c # js ''git'' @ x"
    using us(2) u1 by simp
  show ?thesis
  proof (cases us1)
    case Nil
    then show ?thesis using 1 by simp
  next
    case (Cons u2 us2)
    note c2 = Cons
    show ?thesis
    proof (cases us2)
      case Nil
      then show ?thesis using 1 c2 by simp
    next
      case (Cons u3 us3)
      note c3 = Cons
      show ?thesis
      proof (cases us3)
        case Nil
        then have "post = js ''git'' @ x"
          using 1 c2 c3 by simp
        then show ?thesis
          by (metis sublist_appendI append_Nil)
      next
        case (Cons u4 us4)
        then have "post = us4 @ [c] @ js ''git'' @ x"
          using 1 c2 c3 by simp
        then have "post = (us4 @ [c]) @ js ''git'' @ x"
          by simp
        then show ?thesis
          by (metis sublist_appendI)
      qed
    qed
  qed
qed

text \<open>
  A match with the two dots as written: the slug is the text between the host and
  \<^verbatim>\<open>.git\<close> when the pattern matches at no earlier index and no longer text can stand
  for the group.
\<close>

lemma extractRepoSlugFromUri_first_longest:
  assumes "g \<noteq> []" and "lineFree g"
    and first: "\<forall>a r. pre @ js ''github.com/'' @ g @ js ''.git'' @ post = a @ r \<and> length a < length pre \<longrightarrow>
         (\<nexists>c1 t c2 d. t \<noteq> [] \<and> lineFree t \<and> \<not> isLineTerminator c1 \<and> \<not> isLineTerminator c2 \<and>
            r = js ''github'' @ c1 # js ''com/'' @ t @ c2 # js ''git'' @ d)"
    and longest: "\<forall>g' c x. lineFree g' \<and> length g < length g' \<and> \<not> isLineTerminator c \<longrightarrow>
         g @ js ''.git'' @ post \<noteq> g' @ c # js ''git'' @ x"
  shows "extractRepoSlugFromUri (pre @ js ''github.com/'' @ g @ js ''.git'' @ post) = Some g"
proof -
  let ?dot = "of_char CHR ''.'' :: 16 word"
  let ?r = "js ''github.com/'' @ g @ js ''.git'' @ post"
  have dot: "\<not> isLineTerminator ?dot"
    by (simp add: isLineTerminator_def)
  have eq: "?r = js ''github'' @ ?dot # js ''com/'' @ g @ ?dot # js ''git'' @ post"
    by simp
  have tail: "g @ ?dot # js ''git'' @ post = g @ js ''.git'' @ post"
    by simp
  have max: "\<forall>g' r'. g @ ?dot # js ''git'' @ post = g' @ r' \<and> lineFree g' \<and> length g < length g' \<longrightarrow>
           (\<forall>c. isLineTerminator c \<or> (\<forall>y. r' \<noteq> c # js ''git'' @ y))"
  proof (intro allI impI)
    fix g' r' c
    assume a: "g @ ?dot # js ''git'' @ post = g' @ r' \<and> lineFree g' \<and> length g < length g'"
    show "isLineTerminator c \<or> (\<forall>y. r' \<noteq> c # js ''git'' @ y)"
    proof (cases "isLineTerminator c")
      case True
      then show ?thesis by (rule disjI1)
    next
      case False
      have "r' \<noteq> c # js ''git'' @ y" for y
      proof
        assume "r' = c # js ''git'' @ y"
        then have "g @ js ''.git'' @ post = g' @ c # js ''git'' @ y"
          using a tail by (simp only:)
        moreover have "g @ js ''.git'' @ post \<noteq> g' @ c # js ''git'' @ y"
          using longest a False by blast
        ultimately show False
          by (rule notE[rotated])
      qed
      then show ?thesis by blast
    qed
  qed
  have hit: "repoSlugPattern ?r = Some g"
    unfolding repoSlugPattern_Some_iff
    using dot assms(1,2) eq max by blast
  have before: "repoSlugPattern r = None" if "pre @ ?r = a @ r" "length a < length pre" for a r
  proof -
    have "(\<nexists>c1 t c2 d. t \<noteq> [] \<and> lineFree t \<and> \<not> isLineTerminator c1 \<and> \<not> isLineTerminator c2 \<and>
            r = js ''github'' @ c1 # js ''com/'' @ t @ c2 # js ''git'' @ d)"
      using first[rule_format, of a r] that by (simp only: simp_thms)
    then have "\<not> repoSlugPattern r \<noteq> None"
      unfolding repoSlugPattern_matches_iff .
    then show ?thesis
      by simp
  qed
  have f: "pre @ ?r = pre @ ?r \<and> repoSlugPattern ?r = Some g \<and>
        (\<forall>pre' r'. pre @ ?r = pre' @ r' \<and> length pre' < length pre \<longrightarrow> repoSlugPattern r' = None)"
  proof (intro conjI allI impI)
    show "pre @ ?r = pre @ ?r"
      by (rule refl)
    show "repoSlugPattern ?r = Some g"
      by (rule hit)
    fix pre' r'
    assume a: "pre @ ?r = pre' @ r' \<and> length pre' < length pre"
    show "repoSlugPattern r' = None"
      by (rule before[OF a[THEN conjunct1] a[THEN conjunct2]])
  qed
  have "\<exists>a r. pre @ ?r = a @ r \<and> repoSlugPattern r = Some g \<and>
        (\<forall>pre' r'. pre @ ?r = pre' @ r' \<and> length pre' < length a \<longrightarrow> repoSlugPattern r' = None)"
    by (intro exI[of _ pre] exI[of _ ?r]) (rule f)
  then show ?thesis
    by (simp only: extractRepoSlugFromUri_def searchFrom_Some_iff)
qed

text \<open>Two conditions under which this is so: \<^verbatim>\<open>github\<close> does not occur before the
  host, and \<^verbatim>\<open>git\<close> does not occur after \<^verbatim>\<open>.git\<close>.\<close>

lemma no_earlier_host:
  assumes "\<not> sublist (js ''github'') (pre @ js ''githu'')"
  shows "\<forall>a r. pre @ js ''github.com/'' @ g @ js ''.git'' @ post = a @ r \<and> length a < length pre \<longrightarrow>
         (\<nexists>c1 t c2 d. t \<noteq> [] \<and> lineFree t \<and> \<not> isLineTerminator c1 \<and> \<not> isLineTerminator c2 \<and>
            r = js ''github'' @ c1 # js ''com/'' @ t @ c2 # js ''git'' @ d)"
proof (intro allI impI notI)
  fix a r
  assume h: "pre @ js ''github.com/'' @ g @ js ''.git'' @ post = a @ r \<and> length a < length pre"
  assume "\<exists>c1 t c2 d. t \<noteq> [] \<and> lineFree t \<and> \<not> isLineTerminator c1 \<and> \<not> isLineTerminator c2 \<and>
            r = js ''github'' @ c1 # js ''com/'' @ t @ c2 # js ''git'' @ d"
  then obtain x where "r = js ''github'' @ x"
    by blast
  moreover have "js ''github.com/'' @ g @ js ''.git'' @ post =
      js ''github'' @ (js ''.com/'' @ g @ js ''.git'' @ post)"
    by simp
  ultimately have "pre @ js ''github'' @ (js ''.com/'' @ g @ js ''.git'' @ post) =
      a @ js ''github'' @ x"
    using h by (simp only:)
  then have "sublist (js ''github'') (pre @ butlast (js ''github''))"
    using h[THEN conjunct2] by (rule occurs_earlier) simp
  then show False
    using assms by simp
qed

lemma no_longer_group:
  assumes "\<not> sublist (js ''git'') post"
  shows "\<forall>g' c x. lineFree g' \<and> length g < length g' \<and> \<not> isLineTerminator c \<longrightarrow>
         g @ js ''.git'' @ post \<noteq> g' @ c # js ''git'' @ x"
proof (intro allI impI notI)
  fix g' c x
  assume h: "lineFree g' \<and> length g < length g' \<and> \<not> isLineTerminator c"
  assume "g @ js ''.git'' @ post = g' @ c # js ''git'' @ x"
  then have "g @ of_char CHR ''.'' # js ''git'' @ post = g' @ c # js ''git'' @ x"
    by simp
  then have "sublist (js ''git'') post"
    using h by (intro later_git[of g _ post g' c x]) blast+
  then show False
    using assms by simp
qed

lemma extractRepoSlugFromUri_anywhere:
  assumes "g \<noteq> []" and "lineFree g"
    and "\<not> sublist (js ''github'') (pre @ js ''githu'')"
    and "\<not> sublist (js ''git'') post"
  shows "extractRepoSlugFromUri (pre @ js ''github.com/'' @ g @ js ''.git'' @ post) = Some g"
  using assms(1,2) no_earlier_host[OF assms(3)] no_longer_group[OF assms(4)]
  by (rule extractRepoSlugFromUri_first_longest)

text \<open>
  C7, as the code has it. \<open>extractRepoSlugFromUri\<close> searches its input for the host
  \<^verbatim>\<open>github.com/\<close>, a text and \<^verbatim>\<open>.git\<close>; the slug is the text, and
  \<open>generateRepositoryId\<close> is the slug with each \<^verbatim>\<open>/\<close> replaced by \<^verbatim>\<open>-\<close>, absent
  when the slug is. The match may stand anywhere in the input, and the text need not be
  an owner and a repository:

  \<^item> \<^verbatim>\<open>https://github.com/user/repo.git\<close> gives \<^verbatim>\<open>user-repo\<close>, and for every owner and
    repository free of line terminators \<^verbatim>\<open>https://github.com/<owner>/<repo>.git\<close> gives
    the slug \<^verbatim>\<open><owner>/<repo>\<close>, and the id \<^verbatim>\<open><owner>-<repo>\<close> when neither contains
    \<^verbatim>\<open>/\<close>;
  \<^item> for every text \<open>g\<close>, non-empty and free of line terminators, the input
    \<open>pre\<close> \<^verbatim>\<open>github.com/\<close> \<open>g\<close> \<^verbatim>\<open>.git\<close> \<open>post\<close> yields a slug; the slug is \<open>g\<close>
    when the pattern matches at no index before that host and no longer text can stand
    for the group, and so when \<^verbatim>\<open>github\<close> does not occur before that host and
    \<^verbatim>\<open>git\<close> does not occur in \<open>post\<close>;
  \<^item> a slug that is returned is not empty, has no line terminator, and stands in the
    input between \<^verbatim>\<open>github\<close>, one code unit, \<^verbatim>\<open>com/\<close> and one code unit, \<^verbatim>\<open>git\<close>;
  \<^item> an input in which no such occurrence exists yields no slug and no id.
\<close>

theorem generateRepositoryId_github:
  "generateRepositoryId (js ''https://github.com/user/repo.git'') = Some (js ''user-repo'') \<and>
   (lineFree owner \<and> lineFree repo \<longrightarrow>
      extractRepoSlugFromUri (js ''https://github.com/'' @ owner @ js ''/'' @ repo @ js ''.git'') =
        Some (owner @ js ''/'' @ repo)) \<and>
   (lineFree owner \<and> lineFree repo \<and> slash \<notin> set owner \<and> slash \<notin> set repo \<longrightarrow>
      generateRepositoryId (js ''https://github.com/'' @ owner @ js ''/'' @ repo @ js ''.git'') =
        Some (owner @ js ''-'' @ repo)) \<and>
   generateRepositoryId s =
     map_option (map (\<lambda>c. if c = slash then dash else c)) (extractRepoSlugFromUri s) \<and>
   (g \<noteq> [] \<and> lineFree g \<longrightarrow>
      extractRepoSlugFromUri (pre @ js ''github.com/'' @ g @ js ''.git'' @ post) \<noteq> None) \<and>
   (g \<noteq> [] \<and> lineFree g \<and>
    \<not> sublist (js ''github'') (pre @ js ''githu'') \<and> \<not> sublist (js ''git'') post \<longrightarrow>
      extractRepoSlugFromUri (pre @ js ''github.com/'' @ g @ js ''.git'' @ post) = Some g) \<and>
   (g \<noteq> [] \<and> lineFree g \<and>
    (\<forall>a r. pre @ js ''github.com/'' @ g @ js ''.git'' @ post = a @ r \<and> length a < length pre \<longrightarrow>
         (\<nexists>c1 t c2 d. t \<noteq> [] \<and> lineFree t \<and> \<not> isLineTerminator c1 \<and> \<not> isLineTerminator c2 \<and>
            r = js ''github'' @ c1 # js ''com/'' @ t @ c2 # js ''git'' @ d)) \<and>
    (\<forall>g' c x. lineFree g' \<and> length g < length g' \<and> \<not> isLineTerminator c \<longrightarrow>
         g @ js ''.git'' @ post \<noteq> g' @ c # js ''git'' @ x) \<longrightarrow>
      extractRepoSlugFromUri (pre @ js ''github.com/'' @ g @ js ''.git'' @ post) = Some g) \<and>
   (extractRepoSlugFromUri s = Some slug \<longrightarrow>
      slug \<noteq> [] \<and> lineFree slug \<and>
      (\<exists>a c1 c2 d. \<not> isLineTerminator c1 \<and> \<not> isLineTerminator c2 \<and>
         s = a @ js ''github'' @ c1 # js ''com/'' @ slug @ c2 # js ''git'' @ d)) \<and>
   ((\<nexists>a c1 t c2 d. t \<noteq> [] \<and> lineFree t \<and> \<not> isLineTerminator c1 \<and> \<not> isLineTerminator c2 \<and>
        s = a @ js ''github'' @ c1 # js ''com/'' @ t @ c2 # js ''git'' @ d) \<longrightarrow>
      extractRepoSlugFromUri s = None \<and> generateRepositoryId s = None)"
proof (intro conjI impI)
  have sl: "lineFree (js ''/'')"
    by (simp add: isLineTerminator_def)
  have slug: "extractRepoSlugFromUri (js ''https://github.com/'' @ a @ js ''/'' @ b @ js ''.git'') =
        Some (a @ js ''/'' @ b)" if "lineFree a \<and> lineFree b" for a b
    using extractRepoSlugFromUri_github[of "a @ js ''/'' @ b"] that sl by simp
  have "lineFree (js ''user'') \<and> lineFree (js ''repo'')"
    by (simp add: isLineTerminator_def)
  from slug[OF this] show "generateRepositoryId (js ''https://github.com/user/repo.git'') = Some (js ''user-repo'')"
    by (simp add: generateRepositoryId_map slash_def dash_def)
  show "extractRepoSlugFromUri (js ''https://github.com/'' @ owner @ js ''/'' @ repo @ js ''.git'') =
        Some (owner @ js ''/'' @ repo)" if "lineFree owner \<and> lineFree repo"
    using slug[OF that] .
  show "generateRepositoryId (js ''https://github.com/'' @ owner @ js ''/'' @ repo @ js ''.git'') =
        Some (owner @ js ''-'' @ repo)"
    if h: "lineFree owner \<and> lineFree repo \<and> slash \<notin> set owner \<and> slash \<notin> set repo"
  proof -
    have "map (\<lambda>c. if c = slash then dash else c) x = x" if "slash \<notin> set x" for x
      using that by (induction x) auto
    then show ?thesis
      using slug[of owner repo] h by (simp add: generateRepositoryId_map slash_def dash_def)
  qed
  show "generateRepositoryId s =
     map_option (map (\<lambda>c. if c = slash then dash else c)) (extractRepoSlugFromUri s)"
    by (rule generateRepositoryId_map)
  show "extractRepoSlugFromUri (pre @ js ''github.com/'' @ g @ js ''.git'' @ post) \<noteq> None"
    if h: "g \<noteq> [] \<and> lineFree g"
  proof -
    let ?dot = "of_char CHR ''.'' :: 16 word"
    have "g \<noteq> [] \<and> lineFree g \<and> \<not> isLineTerminator ?dot \<and> \<not> isLineTerminator ?dot \<and>
        pre @ js ''github.com/'' @ g @ js ''.git'' @ post =
        pre @ js ''github'' @ ?dot # js ''com/'' @ g @ ?dot # js ''git'' @ post"
      using h by (simp add: isLineTerminator_def)
    then have "\<exists>a c1 t c2 d. t \<noteq> [] \<and> lineFree t \<and> \<not> isLineTerminator c1 \<and> \<not> isLineTerminator c2 \<and>
        pre @ js ''github.com/'' @ g @ js ''.git'' @ post =
        a @ js ''github'' @ c1 # js ''com/'' @ t @ c2 # js ''git'' @ d"
      by (intro exI[of _ pre] exI[of _ ?dot] exI[of _ g] exI[of _ post])
    then show ?thesis
      by (simp only: extractRepoSlugFromUri_None_iff not_not)
  qed
  show "extractRepoSlugFromUri (pre @ js ''github.com/'' @ g @ js ''.git'' @ post) = Some g"
    if "g \<noteq> [] \<and> lineFree g \<and>
      \<not> sublist (js ''github'') (pre @ js ''githu'') \<and> \<not> sublist (js ''git'') post"
    using that by (intro extractRepoSlugFromUri_anywhere) blast+
  show "extractRepoSlugFromUri (pre @ js ''github.com/'' @ g @ js ''.git'' @ post) = Some g"
    if h: "g \<noteq> [] \<and> lineFree g \<and>
    (\<forall>a r. pre @ js ''github.com/'' @ g @ js ''.git'' @ post = a @ r \<and> length a < length pre \<longrightarrow>
         (\<nexists>c1 t c2 d. t \<noteq> [] \<and> lineFree t \<and> \<not> isLineTerminator c1 \<and> \<not> isLineTerminator c2 \<and>
            r = js ''github'' @ c1 # js ''com/'' @ t @ c2 # js ''git'' @ d)) \<and>
    (\<forall>g' c x. lineFree g' \<and> length g < length g' \<and> \<not> isLineTerminator c \<longrightarrow>
         g @ js ''.git'' @ post \<noteq> g' @ c # js ''git'' @ x)"
    by (rule extractRepoSlugFromUri_first_longest
        [OF h[THEN conjunct1] h[THEN conjunct2, THEN conjunct1]
            h[THEN conjunct2, THEN conjunct2, THEN conjunct1]
            h[THEN conjunct2, THEN conjunct2, THEN conjunct2]])
  show "slug \<noteq> []" "lineFree slug"
    "\<exists>a c1 c2 d. \<not> isLineTerminator c1 \<and> \<not> isLineTerminator c2 \<and>
         s = a @ js ''github'' @ c1 # js ''com/'' @ slug @ c2 # js ''git'' @ d"
    if "extractRepoSlugFromUri s = Some slug"
    using extractRepoSlugFromUri_Some_capture[OF that] by blast+
  assume no: "\<nexists>a c1 t c2 d. t \<noteq> [] \<and> lineFree t \<and> \<not> isLineTerminator c1 \<and> \<not> isLineTerminator c2 \<and>
        s = a @ js ''github'' @ c1 # js ''com/'' @ t @ c2 # js ''git'' @ d"
  then show "extractRepoSlugFromUri s = None"
    by (simp only: extractRepoSlugFromUri_None_iff not_False_eq_True)
  then show "generateRepositoryId s = None"
    by (simp add: generateRepositoryId_map)
qed

theorem generateRepositoryId_github_witness:
  "lineFree (js ''test'') \<and> lineFree (js ''repo0'') \<and>
   slash \<notin> set (js ''test'') \<and> slash \<notin> set (js ''repo0'') \<and>
   extractRepoSlugFromUri (js ''https://github.com/test/repo0.git'') = Some (js ''test/repo0'') \<and>
   generateRepositoryId (js ''https://github.com/test/repo0.git'') = Some (js ''test-repo0'') \<and>
   js ''user/repo'' \<noteq> [] \<and> lineFree (js ''user/repo'') \<and>
   \<not> sublist (js ''github'') (js ''http://'' @ js ''githu'') \<and>
   \<not> sublist (js ''git'') (js ''/issues'') \<and>
   extractRepoSlugFromUri (js ''http://github.com/user/repo.git/issues'') = Some (js ''user/repo'') \<and>
   generateRepositoryId (js ''http://github.com/user/repo.git/issues'') = Some (js ''user-repo'') \<and>
   (\<exists>a c1 c2 d. \<not> isLineTerminator c1 \<and> \<not> isLineTerminator c2 \<and>
      js ''http://github.com/user/repo.git/issues'' =
        a @ js ''github'' @ c1 # js ''com/'' @ js ''user/repo'' @ c2 # js ''git'' @ d) \<and>
   (\<nexists>a c1 t c2 d. t \<noteq> [] \<and> lineFree t \<and> \<not> isLineTerminator c1 \<and> \<not> isLineTerminator c2 \<and>
      js ''https://github.com/github/docs'' =
        a @ js ''github'' @ c1 # js ''com/'' @ t @ c2 # js ''git'' @ d) \<and>
   extractRepoSlugFromUri (js ''https://github.com/github/docs'') = None \<and>
   generateRepositoryId (js ''https://github.com/github/docs'') = None"
proof -
  let ?u = "js ''http://github.com/user/repo.git/issues''"
  let ?v = "js ''https://github.com/github/docs''"
  note T = generateRepositoryId_github[of "js ''test''" "js ''repo0''" ?u "js ''user/repo''"
      "js ''http://''" "js ''/issues''" "js ''user/repo''"]
  note N = generateRepositoryId_github[of "js ''test''" "js ''repo0''" ?v "js ''user/repo''"
      "js ''http://''" "js ''/issues''" "js ''user/repo''"]
  have lf: "lineFree (js ''test'') \<and> lineFree (js ''repo0'')"
    by (simp add: isLineTerminator_def)
  have sf: "slash \<notin> set (js ''test'') \<and> slash \<notin> set (js ''repo0'')"
    by (simp add: slash_def)
  have g: "js ''user/repo'' \<noteq> [] \<and> lineFree (js ''user/repo'')"
    by (simp add: isLineTerminator_def)
  have fst: "\<not> sublist (js ''github'') (js ''http://'' @ js ''githu'')"
    by code_simp
  have lst: "\<not> sublist (js ''git'') (js ''/issues'')"
    by code_simp
  have uri: "js ''https://github.com/'' @ js ''test'' @ js ''/'' @ js ''repo0'' @ js ''.git'' =
      js ''https://github.com/test/repo0.git''"
    "js ''test'' @ js ''/'' @ js ''repo0'' = js ''test/repo0''"
    "js ''test'' @ js ''-'' @ js ''repo0'' = js ''test-repo0''"
    "js ''http://'' @ js ''github.com/'' @ js ''user/repo'' @ js ''.git'' @ js ''/issues'' = ?u"
    by simp_all
  have lfsf: "lineFree (js ''test'') \<and> lineFree (js ''repo0'') \<and>
      slash \<notin> set (js ''test'') \<and> slash \<notin> set (js ''repo0'')"
    using lf sf by (intro conjI) simp_all
  have h6: "js ''user/repo'' \<noteq> [] \<and> lineFree (js ''user/repo'') \<and>
      \<not> sublist (js ''github'') (js ''http://'' @ js ''githu'') \<and>
      \<not> sublist (js ''git'') (js ''/issues'')"
    using g fst lst by (intro conjI) simp_all
  note c = conjunct2
  have 1: "extractRepoSlugFromUri (js ''https://github.com/test/repo0.git'') = Some (js ''test/repo0'')"
    using T[THEN c, THEN conjunct1, THEN mp, OF lf] by (simp only: uri)
  have 2: "generateRepositoryId (js ''https://github.com/test/repo0.git'') = Some (js ''test-repo0'')"
    using T[THEN c, THEN c, THEN conjunct1, THEN mp, OF lfsf] by (simp only: uri)
  have 3: "extractRepoSlugFromUri ?u = Some (js ''user/repo'')"
    using T[THEN c, THEN c, THEN c, THEN c, THEN c, THEN conjunct1, THEN mp, OF h6]
    by (simp only: uri)
  have "generateRepositoryId ?u =
      map_option (map (\<lambda>c. if c = slash then dash else c)) (extractRepoSlugFromUri ?u)"
    by (rule T[THEN c, THEN c, THEN c, THEN conjunct1])
  then have 4: "generateRepositoryId ?u = Some (js ''user-repo'')"
    unfolding 3 by (simp add: slash_def dash_def)
  have h7: "js ''user/repo'' \<noteq> [] \<and> lineFree (js ''user/repo'') \<and>
    (\<forall>a r. js ''http://'' @ js ''github.com/'' @ js ''user/repo'' @ js ''.git'' @ js ''/issues'' = a @ r \<and>
        length a < length (js ''http://'') \<longrightarrow>
         (\<nexists>c1 t c2 d. t \<noteq> [] \<and> lineFree t \<and> \<not> isLineTerminator c1 \<and> \<not> isLineTerminator c2 \<and>
            r = js ''github'' @ c1 # js ''com/'' @ t @ c2 # js ''git'' @ d)) \<and>
    (\<forall>g' c x. lineFree g' \<and> length (js ''user/repo'') < length g' \<and> \<not> isLineTerminator c \<longrightarrow>
         js ''user/repo'' @ js ''.git'' @ js ''/issues'' \<noteq> g' @ c # js ''git'' @ x)"
    by (intro conjI g[THEN conjunct1] g[THEN conjunct2] no_earlier_host[OF fst]
        no_longer_group[OF lst])
  have 3: "extractRepoSlugFromUri ?u = Some (js ''user/repo'')"
    using T[THEN c, THEN c, THEN c, THEN c, THEN c, THEN c, THEN conjunct1, THEN mp, OF h7]
    by (simp only: uri)
  have 5: "\<exists>a c1 c2 d. \<not> isLineTerminator c1 \<and> \<not> isLineTerminator c2 \<and>
      ?u = a @ js ''github'' @ c1 # js ''com/'' @ js ''user/repo'' @ c2 # js ''git'' @ d"
    using T[THEN c, THEN c, THEN c, THEN c, THEN c, THEN c, THEN c, THEN conjunct1, THEN mp, OF 3]
    by (rule conjunct2[THEN conjunct2])
  have "extractRepoSlugFromUri ?v = None"
    by code_simp
  then have no: "\<nexists>a c1 t c2 d. t \<noteq> [] \<and> lineFree t \<and> \<not> isLineTerminator c1 \<and> \<not> isLineTerminator c2 \<and>
      ?v = a @ js ''github'' @ c1 # js ''com/'' @ t @ c2 # js ''git'' @ d"
    unfolding extractRepoSlugFromUri_None_iff .
  note 6 = N[THEN c, THEN c, THEN c, THEN c, THEN c, THEN c, THEN c, THEN c, THEN mp, OF no]
  show ?thesis
    by (intro conjI lf[THEN conjunct1] lf[THEN conjunct2] sf[THEN conjunct1] sf[THEN conjunct2]
        g[THEN conjunct1] g[THEN conjunct2] fst lst 1 2 3 4 5 no
        6[THEN conjunct1] 6[THEN conjunct2])
qed

text \<open>
  The input \<^verbatim>\<open>github.com/repo.git\<close> has a single path segment after the host, so it is
  not of the shape \<^verbatim>\<open>.../owner/repo.git\<close>; the pattern still matches it, and the
  derived id is \<^verbatim>\<open>repo\<close>. The input \<^verbatim>\<open>https://github.com/user/repo.git/issues\<close>
  does not end in \<^verbatim>\<open>.git\<close>, and it yields the id \<^verbatim>\<open>user-repo\<close>.
\<close>

theorem generateRepositoryId_github_counterexample:
  "\<not> ownerRepoGitShape (js ''github.com/repo.git'') \<and>
   extractRepoSlugFromUri (js ''github.com/repo.git'') = Some (js ''repo'') \<and>
   generateRepositoryId (js ''github.com/repo.git'') = Some (js ''repo'') \<and>
   \<not> ownerRepoGitShape (js ''https://github.com/user/repo.git/issues'') \<and>
   extractRepoSlugFromUri (js ''https://github.com/user/repo.git/issues'') = Some (js ''user/repo'') \<and>
   generateRepositoryId (js ''https://github.com/user/repo.git/issues'') = Some (js ''user-repo'')"
proof -
  have shape: "\<not> ownerRepoGitShape (js ''github.com/repo.git'')"
  proof
    assume "ownerRepoGitShape (js ''github.com/repo.git'')"
    then obtain pre owner repo where
      "js ''github.com/repo.git'' = pre @ js ''/'' @ owner @ js ''/'' @ repo @ js ''.git''"
      unfolding ownerRepoGitShape_def by blast
    then have "length (filter (\<lambda>c. c = slash) (js ''github.com/repo.git'')) =
       length (filter (\<lambda>c. c = slash) (pre @ js ''/'' @ owner @ js ''/'' @ repo @ js ''.git''))"
      by (rule arg_cong)
    then show False
      by (simp add: slash_def)
  qed
  have slug: "extractRepoSlugFromUri (js ''github.com/repo.git'') = Some (js ''repo'')"
    by (simp add: extractRepoSlugFromUri_def repoSlugPattern_def literal_def anyChar_def
        dotPlus_def isLineTerminator_def)
  then have id: "generateRepositoryId (js ''github.com/repo.git'') = Some (js ''repo'')"
    by (simp add: generateRepositoryId_map slash_def dash_def)
  have shape': "\<not> ownerRepoGitShape (js ''https://github.com/user/repo.git/issues'')"
  proof
    assume "ownerRepoGitShape (js ''https://github.com/user/repo.git/issues'')"
    then obtain pre owner repo where
      "js ''https://github.com/user/repo.git/issues'' =
         pre @ js ''/'' @ owner @ js ''/'' @ repo @ js ''.git''"
      unfolding ownerRepoGitShape_def by blast
    then have "last (js ''https://github.com/user/repo.git/issues'') =
        last (pre @ js ''/'' @ owner @ js ''/'' @ repo @ js ''.git'')"
      by (rule arg_cong)
    then show False
      by simp
  qed
  have slug': "extractRepoSlugFromUri (js ''https://github.com/user/repo.git/issues'') =
      Some (js ''user/repo'')"
    by code_simp
  have id': "generateRepositoryId (js ''https://github.com/user/repo.git/issues'') =
      Some (js ''user-repo'')"
    by code_simp
  show ?thesis
    by (intro conjI shape slug id shape' slug' id')
qed

section \<open>The eligibility pattern\<close>

lemma dotPlus_endOfInput: "dotPlus endOfInput u \<noteq> None \<longleftrightarrow> u \<noteq> [] \<and> lineFree u"
proof
  assume "dotPlus endOfInput u \<noteq> None"
  then obtain g r where "u = g @ r" "g \<noteq> []" "lineFree g" "endOfInput r \<noteq> None"
    unfolding dotPlus_matches_iff by blast
  moreover from this have "r = []"
    by (simp add: endOfInput_def split: if_splits)
  ultimately show "u \<noteq> [] \<and> lineFree u"
    by simp
next
  assume "u \<noteq> [] \<and> lineFree u"
  then have "u = u @ [] \<and> u \<noteq> [] \<and> lineFree u \<and> endOfInput [] \<noteq> None"
    by (simp add: endOfInput_def)
  then show "dotPlus endOfInput u \<noteq> None"
    unfolding dotPlus_matches_iff by blast
qed

lemma APPHOSTING_CONN_PATTERN_iff:
  "APPHOSTING_CONN_PATTERN s \<noteq> None \<longleftrightarrow>
     (\<exists>g suf. g \<noteq> [] \<and> lineFree g \<and> suf \<noteq> [] \<and> lineFree suf \<and>
        s = g @ slash # generatedIdPrefix @ suf)"
proof -
  define k where "k = (\<lambda>t. do { u \<leftarrow> literal (js ''/apphosting-github-conn-'') t; dotPlus endOfInput u })"
  have lit: "js ''/apphosting-github-conn-'' = slash # generatedIdPrefix"
    by (simp add: slash_def generatedIdPrefix_def)
  have k: "k t \<noteq> None \<longleftrightarrow> (\<exists>suf. t = slash # generatedIdPrefix @ suf \<and> suf \<noteq> [] \<and> lineFree suf)" for t
  proof -
    have "k t \<noteq> None \<longleftrightarrow> (\<exists>u. literal (js ''/apphosting-github-conn-'') t = Some u \<and>
        dotPlus endOfInput u \<noteq> None)"
      unfolding k_def by (cases "literal (js ''/apphosting-github-conn-'') t") simp_all
    also have "\<dots> \<longleftrightarrow> (\<exists>u. t = slash # generatedIdPrefix @ u \<and> u \<noteq> [] \<and> lineFree u)"
      by (simp only: literal_Some_iff dotPlus_endOfInput lit append_Cons)
    finally show ?thesis .
  qed
  have "APPHOSTING_CONN_PATTERN s \<noteq> None \<longleftrightarrow> dotPlus k s \<noteq> None"
    by (simp add: APPHOSTING_CONN_PATTERN_def k_def)
  also have "\<dots> \<longleftrightarrow> (\<exists>g r. s = g @ r \<and> g \<noteq> [] \<and> lineFree g \<and> k r \<noteq> None)"
    by (rule dotPlus_matches_iff)
  also have "\<dots> \<longleftrightarrow> (\<exists>g suf. g \<noteq> [] \<and> lineFree g \<and> suf \<noteq> [] \<and> lineFree suf \<and>
        s = g @ slash # generatedIdPrefix @ suf)"
    unfolding k by blast
  finally show ?thesis .
qed

lemma test_APPHOSTING_CONN_PATTERN_iff:
  "test APPHOSTING_CONN_PATTERN s \<longleftrightarrow>
     (\<exists>pre c suf. \<not> isLineTerminator c \<and> suf \<noteq> [] \<and> lineFree suf \<and>
        s = pre @ c # slash # generatedIdPrefix @ suf)"
  (is "?L \<longleftrightarrow> ?R")
proof
  assume ?L
  then have "\<exists>pre r. s = pre @ r \<and> APPHOSTING_CONN_PATTERN r \<noteq> None"
    by (simp only: test_def searchFrom_matches_iff)
  then obtain pre r where r: "s = pre @ r" "APPHOSTING_CONN_PATTERN r \<noteq> None"
    by blast
  from r(2) have "\<exists>g suf. g \<noteq> [] \<and> lineFree g \<and> suf \<noteq> [] \<and> lineFree suf \<and>
        r = g @ slash # generatedIdPrefix @ suf"
    by (simp only: APPHOSTING_CONN_PATTERN_iff)
  then obtain g suf where g: "g \<noteq> []" "lineFree g" "suf \<noteq> []" "lineFree suf"
    "r = g @ slash # generatedIdPrefix @ suf"
    by blast
  have e: "butlast g @ [last g] = g" using g(1) by simp
  have "s = pre @ g @ slash # generatedIdPrefix @ suf"
    using r(1) g(5) by simp
  then have "s = pre @ (butlast g @ [last g]) @ slash # generatedIdPrefix @ suf"
    by (simp only: e)
  then have "s = (pre @ butlast g) @ last g # slash # generatedIdPrefix @ suf"
    by (simp only: append_assoc append_Cons append_Nil)
  moreover have "\<not> isLineTerminator (last g)"
    using g(1,2) by (simp add: lineFree_def)
  ultimately show ?R using g(3,4) by blast
next
  assume ?R
  then obtain pre c suf where h: "\<not> isLineTerminator c" "suf \<noteq> []" "lineFree suf"
    "s = pre @ c # slash # generatedIdPrefix @ suf" by blast
  have "[c] \<noteq> [] \<and> lineFree [c] \<and> suf \<noteq> [] \<and> lineFree suf \<and>
      c # slash # generatedIdPrefix @ suf = [c] @ slash # generatedIdPrefix @ suf"
    using h(1,2,3) by simp
  then have "\<exists>g suf'. g \<noteq> [] \<and> lineFree g \<and> suf' \<noteq> [] \<and> lineFree suf' \<and>
      c # slash # generatedIdPrefix @ suf = g @ slash # generatedIdPrefix @ suf'"
    by blast
  then have "APPHOSTING_CONN_PATTERN (c # slash # generatedIdPrefix @ suf) \<noteq> None"
    by (simp only: APPHOSTING_CONN_PATTERN_iff)
  then have "\<exists>pre r. s = pre @ r \<and> APPHOSTING_CONN_PATTERN r \<noteq> None"
    using h(4) by blast
  then show ?L
    by (simp only: test_def searchFrom_matches_iff)
qed

text \<open>Where a \<open>/\<close> can stand in a text cut into segments.\<close>

lemma segment_step:
  assumes "slash \<notin> set x" and "x @ slash # r = pre @ slash # t"
  shows "(pre = x \<and> r = t) \<or> (\<exists>pre'. pre = x @ slash # pre' \<and> r = pre' @ slash # t)"
proof -
  from assms(2) obtain us where
    us: "(x = pre @ us \<and> us @ slash # r = slash # t) \<or> (x @ us = pre \<and> slash # r = us @ slash # t)"
    by (auto simp: append_eq_append_conv2)
  then show ?thesis
  proof
    assume a: "x = pre @ us \<and> us @ slash # r = slash # t"
    have "us = []"
    proof (cases us)
      case Nil
      then show ?thesis .
    next
      case (Cons u us')
      then have "u = slash" using a by simp
      then show ?thesis using a Cons assms(1) by simp
    qed
    then show ?thesis using a by simp
  next
    assume a: "x @ us = pre \<and> slash # r = us @ slash # t"
    show ?thesis
    proof (cases us)
      case Nil
      then show ?thesis using a by simp
    next
      case (Cons u us')
      then show ?thesis using a by auto
    qed
  qed
qed

lemma prefix_in_segment:
  assumes "slash \<notin> set b" and "slash \<notin> set x" and "x @ slash # r = b @ suf"
  shows "prefix b x"
proof -
  from assms(3) obtain us where
    us: "(x = b @ us \<and> us @ slash # r = suf) \<or> (x @ us = b \<and> slash # r = us @ suf)"
    by (auto simp: append_eq_append_conv2)
  then show ?thesis
  proof
    assume "x = b @ us \<and> us @ slash # r = suf"
    then show ?thesis by simp
  next
    assume a: "x @ us = b \<and> slash # r = us @ suf"
    have "us = []"
    proof (cases us)
      case Nil
      then show ?thesis .
    next
      case (Cons u us')
      then have "u = slash" using a by simp
      then have "slash \<in> set b" using a Cons by auto
      then show ?thesis using assms(1) by simp
    qed
    then show ?thesis using a by simp
  qed
qed

lemma connectionName_segments:
  "connectionName p l i =
     js ''projects'' @ slash # p @ slash # js ''locations'' @ slash # l @ slash #
     js ''connections'' @ slash # i"
  by (simp add: connectionName_def slash_def)

lemma eligible_id_matches:
  assumes "i = generatedIdPrefix @ suf" and "suf \<noteq> []" and "lineFree suf"
  shows "test APPHOSTING_CONN_PATTERN (connectionName p l i)"
proof -
  let ?c = "of_char CHR ''s'' :: 16 word"
  have "connectionName p l i =
      (js ''projects/'' @ p @ js ''/locations/'' @ l @ js ''/connection'') @
      ?c # slash # generatedIdPrefix @ suf"
    using assms(1) by (simp add: connectionName_def slash_def)
  moreover have "\<not> isLineTerminator ?c"
    by (simp add: isLineTerminator_def)
  ultimately show ?thesis
    unfolding test_APPHOSTING_CONN_PATTERN_iff using assms(2,3) by blast
qed

lemma eligible_canonical_id:
  assumes p: "segment p" and l: "segment l" and i: "segment i"
    and np: "\<not> prefix generatedIdPrefix p" and nl: "\<not> prefix generatedIdPrefix l"
    and m: "test APPHOSTING_CONN_PATTERN (connectionName p l i)"
  shows "\<exists>suf. i = generatedIdPrefix @ suf \<and> suf \<noteq> [] \<and> lineFree suf"
proof -
  from m obtain pre c suf where h: "suf \<noteq> []" "lineFree suf"
    "connectionName p l i = pre @ c # slash # generatedIdPrefix @ suf"
    unfolding test_APPHOSTING_CONN_PATTERN_iff by blast
  define t where "t = generatedIdPrefix @ suf"
  define R4 where "R4 = js ''connections'' @ slash # i"
  define R3 where "R3 = l @ slash # R4"
  define R2 where "R2 = js ''locations'' @ slash # R3"
  define R1 where "R1 = p @ slash # R2"
  have sf: "slash \<notin> set (js ''projects'')" "slash \<notin> set (js ''locations'')"
    "slash \<notin> set (js ''connections'')" "slash \<notin> set generatedIdPrefix"
    by (simp_all add: slash_def generatedIdPrefix_def)
  have sp: "slash \<notin> set p" "slash \<notin> set l" "slash \<notin> set i"
    using p l i by (simp_all add: segment_def)
  have not_loc: "js ''locations'' @ slash # x \<noteq> generatedIdPrefix @ y" for x y
    by (simp add: generatedIdPrefix_def)
  have not_conn: "js ''connections'' @ slash # x \<noteq> generatedIdPrefix @ y" for x y
    by (simp add: generatedIdPrefix_def)
  have "js ''projects'' @ slash # R1 = (pre @ [c]) @ slash # t"
    using h(3) unfolding connectionName_segments R1_def R2_def R3_def R4_def t_def by simp
  from segment_step[OF sf(1) this]
  have "R1 = t \<or> (\<exists>q. R1 = q @ slash # t)" by blast
  then have "\<exists>q. R1 = q @ slash # t"
  proof
    assume "R1 = t"
    then have "prefix generatedIdPrefix p"
      using prefix_in_segment[OF sf(4) sp(1), of R2 suf] unfolding R1_def t_def by simp
    then show ?thesis using np by simp
  qed
  then obtain q1 where "p @ slash # R2 = q1 @ slash # t" unfolding R1_def by blast
  from segment_step[OF sp(1) this]
  have "R2 = t \<or> (\<exists>q. R2 = q @ slash # t)" by blast
  then have "\<exists>q. R2 = q @ slash # t"
  proof
    assume "R2 = t"
    then show ?thesis using not_loc unfolding R2_def t_def by blast
  qed
  then obtain q2 where "js ''locations'' @ slash # R3 = q2 @ slash # t" unfolding R2_def by blast
  from segment_step[OF sf(2) this]
  have "R3 = t \<or> (\<exists>q. R3 = q @ slash # t)" by blast
  then have "\<exists>q. R3 = q @ slash # t"
  proof
    assume "R3 = t"
    then have "prefix generatedIdPrefix l"
      using prefix_in_segment[OF sf(4) sp(2), of R4 suf] unfolding R3_def t_def by simp
    then show ?thesis using nl by simp
  qed
  then obtain q3 where "l @ slash # R4 = q3 @ slash # t" unfolding R3_def by blast
  from segment_step[OF sp(2) this]
  have "R4 = t \<or> (\<exists>q. R4 = q @ slash # t)" by blast
  then have "\<exists>q. R4 = q @ slash # t"
  proof
    assume "R4 = t"
    then show ?thesis using not_conn unfolding R4_def t_def by blast
  qed
  then obtain q4 where "js ''connections'' @ slash # i = q4 @ slash # t" unfolding R4_def by blast
  from segment_step[OF sf(3) this]
  have "i = t \<or> (\<exists>q. i = q @ slash # t)" by blast
  then have "i = t"
    using sp(3) by auto
  then show ?thesis
    using h(1,2) unfolding t_def by blast
qed

lemma mockConn_fields [simp]:
  "name (mockConn i) = connectionName (js ''projectId'') (js ''us-central1'') i"
  "stage (installationState (mockConn i)) = COMPLETE"
  "disabled (mockConn i) = False"
  by (simp_all add: mockConn_def connectionName_def)

text \<open>
  The filter. When the service lists \<open>conns\<close>, \<open>listAppHostingConnections\<close> makes
  that one call and returns exactly the listed connections whose name matches
  \<^verbatim>\<open>/.+\/apphosting-github-conn-.+$/\<close>, whose stage is \<open>COMPLETE\<close> and which are
  not disabled, in the order of the listing; two listings with the same connections
  give results with the same connections. The pattern is tested against the whole
  resource name. For a canonical name whose project and location do not begin with
  \<^verbatim>\<open>apphosting-github-conn-\<close>, it matches exactly when the id is that prefix followed
  by a non-empty text free of line terminators, and the sentinel connection
  \<^verbatim>\<open>apphosting-github-oauth\<close> does not match.
\<close>

lemma listAppHostingConnections_filter:
  "(devConnect_listAllConnections R projectId (js ''-'') (world s) = (Inr conns, w) \<longrightarrow>
      listAppHostingConnections R projectId s =
        (Inr (filter (\<lambda>conn. test APPHOSTING_CONN_PATTERN (name conn) \<and>
                 stage (installationState conn) = COMPLETE \<and> \<not> disabled conn) conns),
         \<lparr>world = w, calls = calls s @ [ListAllConnections projectId (js ''-'')]\<rparr>) \<and>
      (\<forall>conn res. fst (listAppHostingConnections R projectId s) = Inr res \<longrightarrow>
         (conn \<in> set res \<longleftrightarrow>
            conn \<in> set conns \<and> test APPHOSTING_CONN_PATTERN (name conn) \<and>
            stage (installationState conn) = COMPLETE \<and> \<not> disabled conn)) \<and>
      (\<forall>(R' :: 'v Collaborators) projectId' s' conns' w' res res'.
         devConnect_listAllConnections R' projectId' (js ''-'') (world s') = (Inr conns', w') \<and>
         set conns' = set conns \<and>
         fst (listAppHostingConnections R projectId s) = Inr res \<and>
         fst (listAppHostingConnections R' projectId' s') = Inr res' \<longrightarrow> set res' = set res)) \<and>
   (segment p \<and> segment l \<and> segment i \<and>
    \<not> prefix generatedIdPrefix p \<and> \<not> prefix generatedIdPrefix l \<longrightarrow>
      (test APPHOSTING_CONN_PATTERN (connectionName p l i) \<longleftrightarrow>
         (\<exists>suf. i = generatedIdPrefix @ suf \<and> suf \<noteq> [] \<and> lineFree suf)) \<and>
      \<not> test APPHOSTING_CONN_PATTERN (connectionName p l APPHOSTING_OAUTH_CONN_NAME))"
proof (intro conjI impI)
  assume a: "devConnect_listAllConnections R projectId (js ''-'') (world s) = (Inr conns, w)"
  let ?P = "\<lambda>conn. test APPHOSTING_CONN_PATTERN (name conn) \<and>
                 stage (installationState conn) = COMPLETE \<and> \<not> disabled conn"
  show run: "listAppHostingConnections R projectId s =
        (Inr (filter ?P conns), \<lparr>world = w, calls = calls s @ [ListAllConnections projectId (js ''-'')]\<rparr>)"
    using a by (simp add: listAppHostingConnections_def invoke_def del: js_Cons)
  show "\<forall>conn res. fst (listAppHostingConnections R projectId s) = Inr res \<longrightarrow>
         (conn \<in> set res \<longleftrightarrow>
            conn \<in> set conns \<and> test APPHOSTING_CONN_PATTERN (name conn) \<and>
            stage (installationState conn) = COMPLETE \<and> \<not> disabled conn)"
    unfolding run by auto
  show "\<forall>(R' :: 'v Collaborators) projectId' s' conns' w' res res'.
         devConnect_listAllConnections R' projectId' (js ''-'') (world s') = (Inr conns', w') \<and>
         set conns' = set conns \<and>
         fst (listAppHostingConnections R projectId s) = Inr res \<and>
         fst (listAppHostingConnections R' projectId' s') = Inr res' \<longrightarrow> set res' = set res"
  proof (intro allI impI)
    fix R' :: "'v Collaborators" and projectId' s' conns' w' res res'
    assume b: "devConnect_listAllConnections R' projectId' (js ''-'') (world s') = (Inr conns', w') \<and>
         set conns' = set conns \<and>
         fst (listAppHostingConnections R projectId s) = Inr res \<and>
         fst (listAppHostingConnections R' projectId' s') = Inr res'"
    then have "fst (listAppHostingConnections R' projectId' s') = Inr (filter ?P conns')"
      by (simp add: listAppHostingConnections_def invoke_def del: js_Cons)
    then have "res' = filter ?P conns'" "res = filter ?P conns"
      using b run by simp_all
    then show "set res' = set res"
      using b by simp
  qed
next
  assume h: "segment p \<and> segment l \<and> segment i \<and>
    \<not> prefix generatedIdPrefix p \<and> \<not> prefix generatedIdPrefix l"
  show "test APPHOSTING_CONN_PATTERN (connectionName p l i) \<longleftrightarrow>
         (\<exists>suf. i = generatedIdPrefix @ suf \<and> suf \<noteq> [] \<and> lineFree suf)"
    using h eligible_canonical_id[of p l i] eligible_id_matches[of i _ p l] by blast
  have seg: "segment APPHOSTING_OAUTH_CONN_NAME"
    by (simp add: APPHOSTING_OAUTH_CONN_NAME_def segment_def slash_def)
  have "APPHOSTING_OAUTH_CONN_NAME \<noteq> generatedIdPrefix @ suf" for suf
    by (simp add: APPHOSTING_OAUTH_CONN_NAME_def generatedIdPrefix_def)
  then show "\<not> test APPHOSTING_CONN_PATTERN (connectionName p l APPHOSTING_OAUTH_CONN_NAME)"
    using h seg eligible_canonical_id[of p l APPHOSTING_OAUTH_CONN_NAME] by blast
qed

text \<open>The test ``filters out non-apphosting connections'', in the project
  \<^verbatim>\<open>projectId\<close>.\<close>

lemma listAppHostingConnections_filter_test:
  "devConnect_listAllConnections listsMixedConnections (js ''projectId'') (js ''-'') (world start) =
     (Inr [mockConn (js ''apphosting-github-conn-baddcafe''), mockConn (js ''hooray-conn''),
           mockConn (js ''apphosting-github-conn-deadbeef''),
           mockConn (js ''apphosting-github-oauth'')], 0) \<and>
   fst (listAppHostingConnections listsMixedConnections (js ''projectId'') start) =
     Inr [mockConn (js ''apphosting-github-conn-baddcafe''),
          mockConn (js ''apphosting-github-conn-deadbeef'')] \<and>
   segment (js ''projectId'') \<and> segment (js ''us-central1'') \<and>
   \<not> prefix generatedIdPrefix (js ''projectId'') \<and> \<not> prefix generatedIdPrefix (js ''us-central1'') \<and>
   \<not> test APPHOSTING_CONN_PATTERN
       (connectionName (js ''projectId'') (js ''us-central1'') APPHOSTING_OAUTH_CONN_NAME)"
proof -
  let ?conns = "[mockConn (js ''apphosting-github-conn-baddcafe''), mockConn (js ''hooray-conn''),
           mockConn (js ''apphosting-github-conn-deadbeef''),
           mockConn (js ''apphosting-github-oauth'')]"
  note T = listAppHostingConnections_filter[of listsMixedConnections "js ''projectId''" start
      "?conns" 0 "js ''projectId''" "js ''us-central1''"]
  have lst: "devConnect_listAllConnections listsMixedConnections (js ''projectId'') (js ''-'')
      (world start) = (Inr ?conns, 0)"
    by (simp add: listsMixedConnections_def sandbox_def start_def del: js_Cons)
  have seg: "segment (js ''projectId'')" "segment (js ''us-central1'')"
    "segment (js ''apphosting-github-conn-baddcafe'')" "segment (js ''hooray-conn'')"
    "segment (js ''apphosting-github-conn-deadbeef'')" "segment (js ''apphosting-github-oauth'')"
    by (simp_all add: segment_def slash_def)
  have np: "\<not> prefix generatedIdPrefix (js ''projectId'')"
    "\<not> prefix generatedIdPrefix (js ''us-central1'')"
    by (simp_all add: generatedIdPrefix_def)
  have 1: "test APPHOSTING_CONN_PATTERN (name (mockConn (js ''apphosting-github-conn-baddcafe'')))"
  proof -
    have "js ''apphosting-github-conn-baddcafe'' = generatedIdPrefix @ js ''baddcafe'' \<and>
        js ''baddcafe'' \<noteq> [] \<and> lineFree (js ''baddcafe'')"
      by (simp add: generatedIdPrefix_def isLineTerminator_def)
    then show ?thesis
      using T[of "js ''apphosting-github-conn-baddcafe''"] seg np unfolding mockConn_fields
      by blast
  qed
  have 2: "\<not> test APPHOSTING_CONN_PATTERN (name (mockConn (js ''hooray-conn'')))"
  proof -
    have "\<nexists>suf. js ''hooray-conn'' = generatedIdPrefix @ suf \<and> suf \<noteq> [] \<and> lineFree suf"
      by (simp add: generatedIdPrefix_def)
    then show ?thesis
      using T[of "js ''hooray-conn''"] seg np unfolding mockConn_fields
      by blast
  qed
  have 3: "test APPHOSTING_CONN_PATTERN (name (mockConn (js ''apphosting-github-conn-deadbeef'')))"
  proof -
    have "js ''apphosting-github-conn-deadbeef'' = generatedIdPrefix @ js ''deadbeef'' \<and>
        js ''deadbeef'' \<noteq> [] \<and> lineFree (js ''deadbeef'')"
      by (simp add: generatedIdPrefix_def isLineTerminator_def)
    then show ?thesis
      using T[of "js ''apphosting-github-conn-deadbeef''"] seg np unfolding mockConn_fields
      by blast
  qed
  have 4: "\<not> test APPHOSTING_CONN_PATTERN
       (connectionName (js ''projectId'') (js ''us-central1'') APPHOSTING_OAUTH_CONN_NAME)"
    using T[of "js ''hooray-conn''"] seg np by blast
  then have o4: "\<not> test APPHOSTING_CONN_PATTERN (name (mockConn (js ''apphosting-github-oauth'')))"
    unfolding mockConn_fields APPHOSTING_OAUTH_CONN_NAME_def .
  have "listAppHostingConnections listsMixedConnections (js ''projectId'') start =
        (Inr (filter (\<lambda>conn. test APPHOSTING_CONN_PATTERN (name conn) \<and>
                 stage (installationState conn) = COMPLETE \<and> \<not> disabled conn) ?conns),
         \<lparr>world = 0, calls = calls start @ [ListAllConnections (js ''projectId'') (js ''-'')]\<rparr>)"
    using T[of "js ''hooray-conn''"] lst by blast
  moreover have "filter (\<lambda>conn. test APPHOSTING_CONN_PATTERN (name conn) \<and>
                 stage (installationState conn) = COMPLETE \<and> \<not> disabled conn) ?conns =
     [mockConn (js ''apphosting-github-conn-baddcafe''),
      mockConn (js ''apphosting-github-conn-deadbeef'')]"
    using 1 2 3 o4 by (simp only: filter.simps mockConn_fields simp_thms if_True if_False)
  ultimately have "fst (listAppHostingConnections listsMixedConnections (js ''projectId'') start) =
     Inr [mockConn (js ''apphosting-github-conn-baddcafe''),
          mockConn (js ''apphosting-github-conn-deadbeef'')]"
    by (simp only: fst_conv)
  then show ?thesis
    using lst seg(1,2) np 4 by (intro conjI)
qed

text \<open>
  C6. The sentinel OAuth connection is never to be in the result, and the test above
  expects every connection that is not an App Hosting one to be filtered out. The
  pattern aims at the id, the last segment of the name, but its \<^verbatim>\<open>.+\<close> crosses
  \<^verbatim>\<open>/\<close> and it is not anchored at the start: in the project
  \<^verbatim>\<open>apphosting-github-conn-x\<close> every name contains \<^verbatim>\<open>/apphosting-github-conn-\<close> at
  its project id. There the sentinel connection and the connection \<^verbatim>\<open>hooray-conn\<close>,
  both complete and enabled, match and are returned.
\<close>

theorem listAppHostingConnections_prefixed_project:
  "name oauthConnInPrefixedProject =
     js ''projects/apphosting-github-conn-x/locations/us-central1/connections/apphosting-github-oauth'' \<and>
   name hoorayConnInPrefixedProject =
     js ''projects/apphosting-github-conn-x/locations/us-central1/connections/hooray-conn'' \<and>
   parseConnectionName (name oauthConnInPrefixedProject) =
     Some (ConnectionNameParts (js ''apphosting-github-conn-x'') (js ''us-central1'')
             APPHOSTING_OAUTH_CONN_NAME) \<and>
   parseConnectionName (name hoorayConnInPrefixedProject) =
     Some (ConnectionNameParts (js ''apphosting-github-conn-x'') (js ''us-central1'')
             (js ''hooray-conn'')) \<and>
   test APPHOSTING_CONN_PATTERN (name oauthConnInPrefixedProject) \<and>
   test APPHOSTING_CONN_PATTERN (name hoorayConnInPrefixedProject) \<and>
   listAppHostingConnections listsPrefixedProject (js ''apphosting-github-conn-x'') start =
     (Inr [oauthConnInPrefixedProject, hoorayConnInPrefixedProject],
      \<lparr>world = 0, calls = [ListAllConnections (js ''apphosting-github-conn-x'') (js ''-'')]\<rparr>)"
proof -
  have seg: "segment (js ''apphosting-github-conn-x'')" "segment (js ''us-central1'')"
    "segment APPHOSTING_OAUTH_CONN_NAME" "segment (js ''hooray-conn'')"
    by (simp_all add: segment_def slash_def APPHOSTING_OAUTH_CONN_NAME_def)
  have nm: "name oauthConnInPrefixedProject =
      connectionName (js ''apphosting-github-conn-x'') (js ''us-central1'') APPHOSTING_OAUTH_CONN_NAME"
    "name hoorayConnInPrefixedProject =
      connectionName (js ''apphosting-github-conn-x'') (js ''us-central1'') (js ''hooray-conn'')"
    by (simp_all add: oauthConnInPrefixedProject_def hoorayConnInPrefixedProject_def)
  have n1: "name oauthConnInPrefixedProject =
     js ''projects/apphosting-github-conn-x/locations/us-central1/connections/apphosting-github-oauth''"
    by (simp add: nm connectionName_def APPHOSTING_OAUTH_CONN_NAME_def)
  have n2: "name hoorayConnInPrefixedProject =
     js ''projects/apphosting-github-conn-x/locations/us-central1/connections/hooray-conn''"
    by (simp add: nm connectionName_def)
  have p1: "parseConnectionName (name oauthConnInPrefixedProject) =
     Some (ConnectionNameParts (js ''apphosting-github-conn-x'') (js ''us-central1'')
             APPHOSTING_OAUTH_CONN_NAME)"
    unfolding nm parseConnectionName_iff using seg by simp
  have p2: "parseConnectionName (name hoorayConnInPrefixedProject) =
     Some (ConnectionNameParts (js ''apphosting-github-conn-x'') (js ''us-central1'')
             (js ''hooray-conn''))"
    unfolding nm parseConnectionName_iff using seg by simp
  have f2: "\<not> isLineTerminator (of_char CHR ''s'')"
    by code_simp
  have a1: "name oauthConnInPrefixedProject =
      js ''project'' @ of_char CHR ''s'' # slash # generatedIdPrefix @
      js ''x/locations/us-central1/connections/apphosting-github-oauth''"
    by (simp add: n1 slash_def generatedIdPrefix_def)
  have a3: "lineFree (js ''x/locations/us-central1/connections/apphosting-github-oauth'')"
    by code_simp
  have a4: "js ''x/locations/us-central1/connections/apphosting-github-oauth'' \<noteq> []"
    by code_simp
  have "\<exists>pre c suf. \<not> isLineTerminator c \<and> suf \<noteq> [] \<and> lineFree suf \<and>
      name oauthConnInPrefixedProject = pre @ c # slash # generatedIdPrefix @ suf"
    by (intro exI[of _ "js ''project''"] exI[of _ "of_char CHR ''s''"]
        exI[of _ "js ''x/locations/us-central1/connections/apphosting-github-oauth''"]
        conjI a1 f2 a3 a4)
  then have t1: "test APPHOSTING_CONN_PATTERN (name oauthConnInPrefixedProject)"
    by (simp only: test_APPHOSTING_CONN_PATTERN_iff)
  have b1: "name hoorayConnInPrefixedProject =
      js ''project'' @ of_char CHR ''s'' # slash # generatedIdPrefix @
      js ''x/locations/us-central1/connections/hooray-conn''"
    by (simp add: n2 slash_def generatedIdPrefix_def)
  have b3: "lineFree (js ''x/locations/us-central1/connections/hooray-conn'')"
    by code_simp
  have b4: "js ''x/locations/us-central1/connections/hooray-conn'' \<noteq> []"
    by code_simp
  have "\<exists>pre c suf. \<not> isLineTerminator c \<and> suf \<noteq> [] \<and> lineFree suf \<and>
      name hoorayConnInPrefixedProject = pre @ c # slash # generatedIdPrefix @ suf"
    by (intro exI[of _ "js ''project''"] exI[of _ "of_char CHR ''s''"]
        exI[of _ "js ''x/locations/us-central1/connections/hooray-conn''"]
        conjI b1 f2 b3 b4)
  then have t2: "test APPHOSTING_CONN_PATTERN (name hoorayConnInPrefixedProject)"
    by (simp only: test_APPHOSTING_CONN_PATTERN_iff)
  have st: "stage (installationState oauthConnInPrefixedProject) = COMPLETE"
    "\<not> disabled oauthConnInPrefixedProject"
    "stage (installationState hoorayConnInPrefixedProject) = COMPLETE"
    "\<not> disabled hoorayConnInPrefixedProject"
    by (simp_all add: oauthConnInPrefixedProject_def hoorayConnInPrefixedProject_def mockConn_def)
  have run: "listAppHostingConnections listsPrefixedProject (js ''apphosting-github-conn-x'') start =
     (Inr [oauthConnInPrefixedProject, hoorayConnInPrefixedProject],
      \<lparr>world = 0, calls = [ListAllConnections (js ''apphosting-github-conn-x'') (js ''-'')]\<rparr>)"
    using t1 t2 st by (simp add: listAppHostingConnections_def invoke_def listsPrefixedProject_def
        sandbox_def start_def del: js_Cons)
  show ?thesis
    by (intro conjI n1 n2 p1 p2 t1 t2 run)
qed

section \<open>Generated connection ids\<close>

text \<open>Every generated id starts with the prefix, and is recognised by the pattern as soon
  as the random part is not empty.\<close>

lemma generateConnectionId_prefix: "prefix generatedIdPrefix (generateConnectionId random36)"
  by (simp add: generateConnectionId_def generatedIdPrefix_def)

lemma generateConnectionId_matches:
  assumes "drop 6 random36 \<noteq> []" and "lineFree (drop 6 random36)"
  shows "test APPHOSTING_CONN_PATTERN (connectionName p l (generateConnectionId random36))"
  using assms eligible_id_matches[of "generateConnectionId random36" "drop 6 random36" p l]
  by (simp add: generateConnectionId_def generatedIdPrefix_def)

text \<open>
  C10. When \<^verbatim>\<open>Math.random()\<close> returns 0.5, \<^verbatim>\<open>toString(36)\<close> is \<^verbatim>\<open>0.i\<close> and
  \<^verbatim>\<open>slice(6)\<close> leaves nothing: the generated id is the bare prefix
  \<^verbatim>\<open>apphosting-github-conn-\<close>, and the canonical name that ends in it does not match
  \<open>APPHOSTING_CONN_PATTERN\<close>, whose final \<^verbatim>\<open>.+\<close> needs one more code unit.
\<close>

theorem generateConnectionId_short_random:
  "generateConnectionId (js ''0.i'') = js ''apphosting-github-conn-'' \<and>
   \<not> test APPHOSTING_CONN_PATTERN
       (connectionName (js ''projectId'') (js ''us-central1'') (generateConnectionId (js ''0.i'')))"
proof -
  have g: "generateConnectionId (js ''0.i'') = generatedIdPrefix"
    by (simp add: generateConnectionId_def generatedIdPrefix_def)
  have seg: "segment (js ''projectId'')" "segment (js ''us-central1'')" "segment generatedIdPrefix"
    by (simp_all add: segment_def slash_def generatedIdPrefix_def)
  have np: "\<not> prefix generatedIdPrefix (js ''projectId'')"
    "\<not> prefix generatedIdPrefix (js ''us-central1'')"
    by (simp_all add: generatedIdPrefix_def)
  have "\<nexists>suf. generatedIdPrefix = generatedIdPrefix @ suf \<and> suf \<noteq> [] \<and> lineFree suf"
    by simp
  then have "\<not> test APPHOSTING_CONN_PATTERN
       (connectionName (js ''projectId'') (js ''us-central1'') generatedIdPrefix)"
    using eligible_canonical_id[OF seg np] by blast
  then show ?thesis
    unfolding g by (simp add: generatedIdPrefix_def)
qed

section \<open>Parsing connection names\<close>

text \<open>
  C9. For every name of the exact form \<^verbatim>\<open>projects/P/locations/L/connections/C\<close>
  whose parts \<open>P\<close>, \<open>L\<close> and \<open>C\<close> are non-empty and free of \<^verbatim>\<open>/\<close>,
  \<open>parseConnectionName\<close> returns the three parts; for every other string (a wrong
  prefix, extra trailing segments, anything else) it returns \<open>None\<close>, the model of
  \<^verbatim>\<open>undefined\<close>. The function is total: no input makes it throw.
\<close>

theorem parseConnectionName_canonical:
  "(segment P \<and> segment L \<and> segment C \<longrightarrow>
      parseConnectionName (connectionName P L C) = Some (ConnectionNameParts P L C)) \<and>
   ((\<nexists>P' L' C'. segment P' \<and> segment L' \<and> segment C' \<and> s = connectionName P' L' C') \<longrightarrow>
      parseConnectionName s = None)"
proof (intro conjI impI)
  assume "segment P \<and> segment L \<and> segment C"
  then show "parseConnectionName (connectionName P L C) = Some (ConnectionNameParts P L C)"
    by (simp add: parseConnectionName_iff)
next
  assume no: "\<nexists>P' L' C'. segment P' \<and> segment L' \<and> segment C' \<and> s = connectionName P' L' C'"
  show "parseConnectionName s = None"
  proof (cases "parseConnectionName s")
    case None
    then show ?thesis .
  next
    case (Some parts)
    obtain p l i where "parts = ConnectionNameParts p l i"
      by (cases parts)
    with Some no show ?thesis
      by (auto simp: parseConnectionName_iff)
  qed
qed

theorem parseConnectionName_canonical_witness:
  "segment (js ''my-project'') \<and> segment (js ''us-central1'') \<and> segment (js ''my-conn'') \<and>
   parseConnectionName (js ''projects/my-project/locations/us-central1/connections/my-conn'') =
     Some (ConnectionNameParts (js ''my-project'') (js ''us-central1'') (js ''my-conn'')) \<and>
   parseConnectionName
     (js ''projects/my-project/locations/us-central1/connections/my-conn/repositories/repo'') = None \<and>
   parseConnectionName (js ''foobar'') = None"
proof -
  let ?long = "js ''projects/my-project/locations/us-central1/connections/my-conn/repositories/repo''"
  have seg: "segment (js ''my-project'') \<and> segment (js ''us-central1'') \<and> segment (js ''my-conn'')"
    by (simp add: segment_def slash_def)
  have none: "parseConnectionName ?long = None" "parseConnectionName (js ''foobar'') = None"
    by (simp_all add: parseConnectionName_def literal_def notSlashPlus_def slash_def)
  have no1: "\<nexists>P' L' C'. segment P' \<and> segment L' \<and> segment C' \<and> ?long = connectionName P' L' C'"
    using none(1) parseConnectionName_iff by (metis option.distinct(1))
  have no2: "\<nexists>P' L' C'. segment P' \<and> segment L' \<and> segment C' \<and>
      js ''foobar'' = connectionName P' L' C'"
    using none(2) parseConnectionName_iff by (metis option.distinct(1))
  have name: "connectionName (js ''my-project'') (js ''us-central1'') (js ''my-conn'') =
      js ''projects/my-project/locations/us-central1/connections/my-conn''"
    by (simp add: connectionName_def)
  show ?thesis
    using seg no1 no2 name
      parseConnectionName_canonical[of "js ''my-project''" "js ''us-central1''" "js ''my-conn''" ?long]
      parseConnectionName_canonical[of "js ''my-project''" "js ''us-central1''" "js ''my-conn''"
        "js ''foobar''"]
    by metis
qed

section \<open>Get or create\<close>

lemma getOrCreateConnection_not_found:
  assumes "devConnect_getConnection R p l c (world s) = (Inl err, w1)"
    and "status err = Some 404"
    and "devConnect_createConnection R p l c cfg w1 = (Inr opn, w2)"
    and "opts = devConnectPollerOptions R (js ''create-'' @ l @ js ''-'' @ c) (name opn)"
    and "poller_pollOperation_Connection R opts w2 = (polled, w3)"
  shows "getOrCreateConnection R p l c cfg s =
     (polled, \<lparr>world = w3,
               calls = calls s @ [GetConnection p l c, CreateConnection p l c cfg, PollOperation opts]\<rparr>)"
  using assms
  by (simp add: getOrCreateConnection_def createConnection_def invoke_def del: js_Cons)

lemma getOrCreateConnection_found:
  assumes "devConnect_getConnection R p l c (world s) = (Inr conn, w1)"
  shows "getOrCreateConnection R p l c cfg s =
     (Inr conn, \<lparr>world = w1, calls = calls s @ [GetConnection p l c]\<rparr>)"
  using assms by (simp add: getOrCreateConnection_def invoke_def)

lemma getOrCreateConnection_other_error:
  assumes "devConnect_getConnection R p l c (world s) = (Inl err, w1)"
    and "status err \<noteq> Some 404"
  shows "getOrCreateConnection R p l c cfg s =
     (Inl err, \<lparr>world = w1, calls = calls s @ [GetConnection p l c]\<rparr>)"
  using assms by (simp add: getOrCreateConnection_def invoke_def)

lemma getOrCreateRepository_not_found:
  assumes "generateRepositoryId uri = Some rid"
    and "devConnect_getGitRepositoryLink R p l c rid (world s) = (Inl err, w1)"
    and "status err = Some 404"
    and "devConnect_createGitRepositoryLink R p l c rid uri w1 = (Inr opn, w2)"
    and "opts = devConnectPollerOptions R (js ''create-'' @ l @ js ''-'' @ c @ js ''-'' @ rid) (name opn)"
    and "poller_pollOperation_GitRepositoryLink R opts w2 = (polled, w3)"
  shows "getOrCreateRepository R p l c uri s =
     (polled, \<lparr>world = w3,
               calls = calls s @ [GetGitRepositoryLink p l c rid,
                                  CreateGitRepositoryLink p l c rid uri, PollOperation opts]\<rparr>)"
  using assms generateRepositoryId_nonempty[OF assms(1)]
  by (simp add: getOrCreateRepository_def invoke_def del: js_Cons)

lemma getOrCreateRepository_found:
  assumes "generateRepositoryId uri = Some rid"
    and "devConnect_getGitRepositoryLink R p l c rid (world s) = (Inr repo, w1)"
  shows "getOrCreateRepository R p l c uri s =
     (Inr repo, \<lparr>world = w1, calls = calls s @ [GetGitRepositoryLink p l c rid]\<rparr>)"
  using assms generateRepositoryId_nonempty[OF assms(1)]
  by (simp add: getOrCreateRepository_def invoke_def del: js_Cons)

lemma getOrCreateRepository_other_error:
  assumes "generateRepositoryId uri = Some rid"
    and "devConnect_getGitRepositoryLink R p l c rid (world s) = (Inl err, w1)"
    and "status err \<noteq> Some 404"
  shows "getOrCreateRepository R p l c uri s =
     (Inl err, \<lparr>world = w1, calls = calls s @ [GetGitRepositoryLink p l c rid]\<rparr>)"
  using assms generateRepositoryId_nonempty[OF assms(1)]
  by (simp add: getOrCreateRepository_def invoke_def del: js_Cons)

lemma getOrCreateRepository_underivable:
  assumes "generateRepositoryId uri = None"
  shows "getOrCreateRepository R p l c uri s =
     (Inl (FirebaseError (js ''Failed to generate repositoryId for URI \"'' @ uri @ js ''\".'') None), s)"
  using assms by (simp add: getOrCreateRepository_def del: js_Cons)

lemma createConnection_calls:
  "\<exists>rest. calls (snd (createConnection R p l c cfg s)) =
     calls s @ CreateConnection p l c cfg # rest"
  by (auto simp: createConnection_def invoke_def Let_def split: prod.splits sum.splits)

lemma getOrCreateConnection_creates_iff:
  "list_ex isCreate (newCalls s (snd (getOrCreateConnection R p l c cfg s))) \<longleftrightarrow>
     (\<exists>err w1. devConnect_getConnection R p l c (world s) = (Inl err, w1) \<and> status err = Some 404)"
proof -
  obtain r w1 where g: "devConnect_getConnection R p l c (world s) = (r, w1)"
    by (cases "devConnect_getConnection R p l c (world s)")
  show ?thesis
  proof (cases r)
    case (Inr conn)
    then show ?thesis
      using g by (simp add: getOrCreateConnection_def invoke_def newCalls_def)
  next
    case (Inl err)
    show ?thesis
    proof (cases "status err = Some 404")
      case False
      then show ?thesis
        using g Inl by (simp add: getOrCreateConnection_def invoke_def newCalls_def)
    next
      case True
      let ?s1 = "\<lparr>world = w1, calls = calls s @ [GetConnection p l c]\<rparr>"
      obtain rest where "calls (snd (createConnection R p l c cfg ?s1)) =
          calls ?s1 @ CreateConnection p l c cfg # rest"
        using createConnection_calls[of R p l c cfg ?s1] by blast
      then have "list_ex isCreate (newCalls s (snd (getOrCreateConnection R p l c cfg s)))"
        using g Inl True by (simp add: getOrCreateConnection_def invoke_def newCalls_def)
      then show ?thesis
        using g Inl True by simp
    qed
  qed
qed

lemma getOrCreateRepository_creates_iff:
  "list_ex isCreate (newCalls s (snd (getOrCreateRepository R p l c uri s))) \<longleftrightarrow>
     (\<exists>rid err w1. generateRepositoryId uri = Some rid \<and>
        devConnect_getGitRepositoryLink R p l c rid (world s) = (Inl err, w1) \<and>
        status err = Some 404)"
proof (cases "generateRepositoryId uri")
  case None
  then show ?thesis
    by (simp add: getOrCreateRepository_underivable newCalls_def)
next
  case (Some rid)
  note ne = generateRepositoryId_nonempty[OF Some]
  obtain r w1 where g: "devConnect_getGitRepositoryLink R p l c rid (world s) = (r, w1)"
    by (cases "devConnect_getGitRepositoryLink R p l c rid (world s)")
  show ?thesis
  proof (cases r)
    case (Inr repo)
    then show ?thesis
      using g Some by (simp add: getOrCreateRepository_found newCalls_def)
  next
    case (Inl err)
    show ?thesis
    proof (cases "status err = Some 404")
      case False
      then show ?thesis
        using g Inl Some by (simp add: getOrCreateRepository_other_error newCalls_def)
    next
      case True
      have "list_ex isCreate (newCalls s (snd (getOrCreateRepository R p l c uri s)))"
        using g Inl True Some ne
        by (auto simp: getOrCreateRepository_def invoke_def newCalls_def Let_def
            split: prod.splits sum.splits simp del: js_Cons)
      then show ?thesis
        using g Inl True Some by simp
    qed
  qed
qed

lemma getOrCreateRepository_fetches:
  assumes "generateRepositoryId uri = Some rid"
  shows "\<exists>rest. newCalls s (snd (getOrCreateRepository R p l c uri s)) =
     GetGitRepositoryLink p l c rid # rest"
  using assms generateRepositoryId_nonempty[OF assms]
  by (auto simp: getOrCreateRepository_def invoke_def newCalls_def Let_def
      split: prod.splits sum.splits simp del: js_Cons)

lemma getOrCreateRepository_errors:
  assumes "generateRepositoryId uri = Some rid"
    and "fst (getOrCreateRepository R p l c uri s) = Inl e"
  shows "\<exists>w w'. devConnect_getGitRepositoryLink R p l c rid w = (Inl e, w') \<or>
     devConnect_createGitRepositoryLink R p l c rid uri w = (Inl e, w') \<or>
     (\<exists>opts. poller_pollOperation_GitRepositoryLink R opts w = (Inl e, w'))"
  using assms generateRepositoryId_nonempty[OF assms(1)]
  by (auto simp: getOrCreateRepository_def invoke_def Let_def
      split: prod.splits sum.splits if_splits simp del: js_Cons)

lemma testUri_id:
  "generateRepositoryId (js ''https://github.com/test/repo0.git'') = Some (js ''test-repo0'')"
  by code_simp

text \<open>
  C1. For \<open>getOrCreateConnection\<close> and \<open>getOrCreateRepository\<close> (on a clone URI
  with a derivable id): when the fetch fails with status 404 and the create call
  answers with an operation, the run makes exactly the fetch, one create call and one
  poll, in this order; the poll is of that operation (its
  \<^verbatim>\<open>operationResourceName\<close> is the name of the operation that the create call
  returned, beside the fixed options of the module and the poller name), and the run
  returns what the poll returns, whatever its stage; \<open>getOrCreateConnection\<close> does
  not enter the OAuth loop. When the fetch succeeds, the fetch is the only call and the
  fetched resource is returned unchanged.
\<close>

theorem getOrCreate_fetch_then_create:
  "(devConnect_getConnection R p l c (world s) = (Inl err, w1) \<and> status err = Some 404 \<and>
    devConnect_createConnection R p l c cfg w1 = (Inr opn, w2) \<and>
    opts = \<lparr>apiOrigin = developerConnectOrigin R, apiVersion = js ''v1'',
            masterTimeout = 1500000, maxBackoff = 10000,
            pollerName = js ''create-'' @ l @ js ''-'' @ c,
            operationResourceName = name opn\<rparr> \<and>
    poller_pollOperation_Connection R opts w2 = (polled, w3) \<longrightarrow>
      getOrCreateConnection R p l c cfg s =
        (polled, \<lparr>world = w3,
                  calls = calls s @
                    [GetConnection p l c, CreateConnection p l c cfg, PollOperation opts]\<rparr>)) \<and>
   (devConnect_getConnection R p l c (world s) = (Inr conn, w1) \<longrightarrow>
      getOrCreateConnection R p l c cfg s =
        (Inr conn, \<lparr>world = w1, calls = calls s @ [GetConnection p l c]\<rparr>)) \<and>
   (generateRepositoryId uri = Some rid \<and>
    devConnect_getGitRepositoryLink R p l c rid (world s) = (Inl err, w1) \<and> status err = Some 404 \<and>
    devConnect_createGitRepositoryLink R p l c rid uri w1 = (Inr opn, w2) \<and>
    ropts = \<lparr>apiOrigin = developerConnectOrigin R, apiVersion = js ''v1'',
             masterTimeout = 1500000, maxBackoff = 10000,
             pollerName = js ''create-'' @ l @ js ''-'' @ c @ js ''-'' @ rid,
             operationResourceName = name opn\<rparr> \<and>
    poller_pollOperation_GitRepositoryLink R ropts w2 = (polledRepo, w3) \<longrightarrow>
      getOrCreateRepository R p l c uri s =
        (polledRepo, \<lparr>world = w3,
                      calls = calls s @
                        [GetGitRepositoryLink p l c rid, CreateGitRepositoryLink p l c rid uri,
                         PollOperation ropts]\<rparr>)) \<and>
   (generateRepositoryId uri = Some rid \<and>
    devConnect_getGitRepositoryLink R p l c rid (world s) = (Inr repo, w1) \<longrightarrow>
      getOrCreateRepository R p l c uri s =
        (Inr repo, \<lparr>world = w1, calls = calls s @ [GetGitRepositoryLink p l c rid]\<rparr>))"
proof -
  have o: "\<lparr>apiOrigin = developerConnectOrigin R, apiVersion = js ''v1'',
            masterTimeout = 1500000, maxBackoff = 10000,
            pollerName = pn, operationResourceName = on\<rparr> = devConnectPollerOptions R pn on" for pn on
    by (simp add: devConnectPollerOptions_def)
  show ?thesis
    unfolding o
    using getOrCreateConnection_not_found[of R p l c s err w1 cfg opn w2 opts polled w3]
      getOrCreateConnection_found[of R p l c s conn w1 cfg]
      getOrCreateRepository_not_found[of uri rid R p l c s err w1 opn w2 ropts polledRepo w3]
      getOrCreateRepository_found[of uri rid R p l c s repo w1]
    by blast
qed

theorem getOrCreate_fetch_then_create_witness:
  "getOrCreateConnection createsConnection (js ''projectId'') (js ''us-central1'') connectionId0 None
     start =
     (Inr pendingConn,
      \<lparr>world = 1,
       calls = calls start @
         [GetConnection (js ''projectId'') (js ''us-central1'') connectionId0,
          CreateConnection (js ''projectId'') (js ''us-central1'') connectionId0 None,
          PollOperation
            \<lparr>apiOrigin = js ''https://developerconnect.googleapis.com'', apiVersion = js ''v1'',
             masterTimeout = 1500000, maxBackoff = 10000,
             pollerName = js ''create-us-central1-apphosting-us-central1'',
             operationResourceName =
               js ''projects/projectId/locations/us-central1/connections/apphosting-us-central1''\<rparr>]\<rparr>) \<and>
   stage (installationState pendingConn) = PENDING_USER_OAUTH \<and>
   getOrCreateConnection createsRepository (js ''projectId'') (js ''us-central1'') connectionId0 None
     start =
     (Inr completeConn,
      \<lparr>world = 0,
       calls = calls start @ [GetConnection (js ''projectId'') (js ''us-central1'') connectionId0]\<rparr>) \<and>
   getOrCreateRepository createsRepository (js ''projectId'') (js ''us-central1'') connectionId0
     (js ''https://github.com/test/repo0.git'') start =
     (Inr repo0,
      \<lparr>world = 0,
       calls = calls start @
         [GetGitRepositoryLink (js ''projectId'') (js ''us-central1'') connectionId0 (js ''test-repo0''),
          CreateGitRepositoryLink (js ''projectId'') (js ''us-central1'') connectionId0
            (js ''test-repo0'') (js ''https://github.com/test/repo0.git''),
          PollOperation
            \<lparr>apiOrigin = js ''https://developerconnect.googleapis.com'', apiVersion = js ''v1'',
             masterTimeout = 1500000, maxBackoff = 10000,
             pollerName = js ''create-us-central1-apphosting-us-central1-test-repo0'',
             operationResourceName = js ''op''\<rparr>]\<rparr>) \<and>
   getOrCreateRepository reusesRepository (js ''projectId'') (js ''us-central1'') connectionId0
     (js ''https://github.com/test/repo0.git'') start =
     (Inr repo0,
      \<lparr>world = 0,
       calls = calls start @
         [GetGitRepositoryLink (js ''projectId'') (js ''us-central1'') connectionId0
            (js ''test-repo0'')]\<rparr>)"
proof -
  let ?p = "js ''projectId''" and ?l = "js ''us-central1''"
  let ?uri = "js ''https://github.com/test/repo0.git''"
  let ?e = "FirebaseError (js ''error'') (Some 404)"
  let ?o1 = "\<lparr>apiOrigin = js ''https://developerconnect.googleapis.com'', apiVersion = js ''v1'',
             masterTimeout = 1500000, maxBackoff = 10000,
             pollerName = js ''create-us-central1-apphosting-us-central1'',
             operationResourceName =
               js ''projects/projectId/locations/us-central1/connections/apphosting-us-central1''\<rparr>"
  let ?o2 = "\<lparr>apiOrigin = js ''https://developerconnect.googleapis.com'', apiVersion = js ''v1'',
             masterTimeout = 1500000, maxBackoff = 10000,
             pollerName = js ''create-us-central1-apphosting-us-central1-test-repo0'',
             operationResourceName = js ''op''\<rparr>"
  have h1: "devConnect_getConnection createsConnection ?p ?l connectionId0 (world start) = (Inl ?e, 1) \<and>
      status ?e = Some 404 \<and>
      devConnect_createConnection createsConnection ?p ?l connectionId0 None 1 = (Inr op0, 1) \<and>
      ?o1 = \<lparr>apiOrigin = developerConnectOrigin createsConnection, apiVersion = js ''v1'',
            masterTimeout = 1500000, maxBackoff = 10000,
            pollerName = js ''create-'' @ ?l @ js ''-'' @ connectionId0,
            operationResourceName = name op0\<rparr> \<and>
      poller_pollOperation_Connection createsConnection ?o1 1 = (Inr pendingConn, 1)"
    by (simp add: createsConnection_def sandbox_def start_def connectionId0_def op0_def)
  have h2: "devConnect_getConnection createsRepository ?p ?l connectionId0 (world start) =
      (Inr completeConn, 0)"
    by (simp add: createsRepository_def sandbox_def start_def del: js_Cons)
  have h3: "generateRepositoryId ?uri = Some (js ''test-repo0'') \<and>
      devConnect_getGitRepositoryLink createsRepository ?p ?l connectionId0 (js ''test-repo0'')
        (world start) = (Inl ?e, 0) \<and>
      status ?e = Some 404 \<and>
      devConnect_createGitRepositoryLink createsRepository ?p ?l connectionId0 (js ''test-repo0'') ?uri 0 =
        (Inr \<lparr>name = js ''op'', done' = False\<rparr>, 0) \<and>
      ?o2 = \<lparr>apiOrigin = developerConnectOrigin createsRepository, apiVersion = js ''v1'',
             masterTimeout = 1500000, maxBackoff = 10000,
             pollerName = js ''create-'' @ ?l @ js ''-'' @ connectionId0 @ js ''-'' @ js ''test-repo0'',
             operationResourceName = name \<lparr>name = js ''op'', done' = False\<rparr>\<rparr> \<and>
      poller_pollOperation_GitRepositoryLink createsRepository ?o2 0 = (Inr repo0, 0)"
    using testUri_id by (simp add: createsRepository_def sandbox_def start_def connectionId0_def)
  have h4: "generateRepositoryId ?uri = Some (js ''test-repo0'') \<and>
      devConnect_getGitRepositoryLink reusesRepository ?p ?l connectionId0 (js ''test-repo0'')
        (world start) = (Inr repo0, 0)"
    using testUri_id by (simp add: reusesRepository_def sandbox_def start_def del: js_Cons)
  have st: "stage (installationState pendingConn) = PENDING_USER_OAUTH"
    by (simp add: pendingConn_def)
  note r1 = getOrCreate_fetch_then_create[THEN conjunct1, THEN mp, OF h1]
  note r2 = getOrCreate_fetch_then_create[THEN conjunct2, THEN conjunct1, THEN mp, OF h2]
  note r3 = getOrCreate_fetch_then_create[THEN conjunct2, THEN conjunct2, THEN conjunct1, THEN mp, OF h3]
  note r4 = getOrCreate_fetch_then_create[THEN conjunct2, THEN conjunct2, THEN conjunct2, THEN mp, OF h4]
  show ?thesis
    by (intro conjI r1 r2 r3 r4 st)
qed

text \<open>
  C5. When the fetch fails with an error whose status is not 404,
  \<open>getOrCreateConnection\<close> and \<open>getOrCreateRepository\<close> return that very error, and
  the fetch is the only call of the run: no create, no poll. A create call is among the
  calls of a run exactly when the fetch failed with status 404.
\<close>

theorem getOrCreate_other_errors_propagate:
  "(devConnect_getConnection R p l c (world s) = (Inl err, w1) \<and> status err \<noteq> Some 404 \<longrightarrow>
      getOrCreateConnection R p l c cfg s =
        (Inl err, \<lparr>world = w1, calls = calls s @ [GetConnection p l c]\<rparr>)) \<and>
   (generateRepositoryId uri = Some rid \<and>
    devConnect_getGitRepositoryLink R p l c rid (world s) = (Inl err, w1) \<and>
    status err \<noteq> Some 404 \<longrightarrow>
      getOrCreateRepository R p l c uri s =
        (Inl err, \<lparr>world = w1, calls = calls s @ [GetGitRepositoryLink p l c rid]\<rparr>)) \<and>
   (list_ex isCreate (newCalls s (snd (getOrCreateConnection R p l c cfg s))) \<longleftrightarrow>
      (\<exists>e w. devConnect_getConnection R p l c (world s) = (Inl e, w) \<and> status e = Some 404)) \<and>
   (list_ex isCreate (newCalls s (snd (getOrCreateRepository R p l c uri s))) \<longleftrightarrow>
      (\<exists>r e w. generateRepositoryId uri = Some r \<and>
         devConnect_getGitRepositoryLink R p l c r (world s) = (Inl e, w) \<and> status e = Some 404))"
  using getOrCreateConnection_other_error[of R p l c s err w1 cfg]
    getOrCreateRepository_other_error[of uri rid R p l c s err w1]
    getOrCreateConnection_creates_iff[of s R p l c cfg]
    getOrCreateRepository_creates_iff[of s R p l c uri]
  by blast

theorem getOrCreate_other_errors_propagate_witness:
  "status (FirebaseError (js ''Unexpected getConnection call'') None) \<noteq> Some 404 \<and>
   getOrCreateConnection sandbox (js ''projectId'') (js ''us-central1'') connectionId0 None start =
     (Inl (FirebaseError (js ''Unexpected getConnection call'') None),
      \<lparr>world = 0,
       calls = calls start @ [GetConnection (js ''projectId'') (js ''us-central1'') connectionId0]\<rparr>) \<and>
   getOrCreateRepository sandbox (js ''projectId'') (js ''us-central1'') connectionId0
     (js ''https://github.com/test/repo0.git'') start =
     (Inl (FirebaseError (js ''Unexpected getGitRepositoryLink call'') None),
      \<lparr>world = 0,
       calls = calls start @
         [GetGitRepositoryLink (js ''projectId'') (js ''us-central1'') connectionId0
            (js ''test-repo0'')]\<rparr>)"
proof -
  let ?p = "js ''projectId''" and ?l = "js ''us-central1''"
  let ?uri = "js ''https://github.com/test/repo0.git''"
  have h1: "devConnect_getConnection sandbox ?p ?l connectionId0 (world start) =
      (Inl (FirebaseError (js ''Unexpected getConnection call'') None), 0) \<and>
      status (FirebaseError (js ''Unexpected getConnection call'') None) \<noteq> Some 404"
    by (simp add: sandbox_def start_def unexpected_def del: js_Cons)
  have h2: "generateRepositoryId ?uri = Some (js ''test-repo0'') \<and>
      devConnect_getGitRepositoryLink sandbox ?p ?l connectionId0 (js ''test-repo0'') (world start) =
        (Inl (FirebaseError (js ''Unexpected getGitRepositoryLink call'') None), 0) \<and>
      status (FirebaseError (js ''Unexpected getGitRepositoryLink call'') None) \<noteq> Some 404"
    using testUri_id by (simp add: sandbox_def start_def unexpected_def del: js_Cons)
  note r1 = getOrCreate_other_errors_propagate[THEN conjunct1, THEN mp, OF h1]
  note r2 = getOrCreate_other_errors_propagate[THEN conjunct2, THEN conjunct1, THEN mp, OF h2]
  show ?thesis
    using h1 by (intro conjI r1 r2) simp
qed

text \<open>
  C8. When no repository id can be derived from the clone URI,
  \<open>getOrCreateRepository\<close> fails with the error
  \<^verbatim>\<open>Failed to generate repositoryId for URI "<cloneUri>".\<close> and leaves the state as it
  was: no call is made. When an id can be derived, the run goes on to fetch the
  repository link under that id, and an error it ends in is one that a collaborator
  (fetch, create or poll) has thrown.
\<close>

theorem getOrCreateRepository_malformed_uri:
  "(generateRepositoryId uri = None \<longrightarrow>
      getOrCreateRepository R p l c uri s =
        (Inl (FirebaseError
                (js ''Failed to generate repositoryId for URI \"'' @ uri @ js ''\".'') None), s)) \<and>
   (generateRepositoryId uri = Some rid \<longrightarrow>
      (\<exists>rest. newCalls s (snd (getOrCreateRepository R p l c uri s)) =
         GetGitRepositoryLink p l c rid # rest) \<and>
      (\<forall>e. fst (getOrCreateRepository R p l c uri s) = Inl e \<longrightarrow>
         (\<exists>w w'. devConnect_getGitRepositoryLink R p l c rid w = (Inl e, w') \<or>
            devConnect_createGitRepositoryLink R p l c rid uri w = (Inl e, w') \<or>
            (\<exists>opts. poller_pollOperation_GitRepositoryLink R opts w = (Inl e, w')))))"
  using getOrCreateRepository_underivable[of uri R p l c s]
    getOrCreateRepository_fetches[of uri rid s R p l c]
    getOrCreateRepository_errors[of uri rid R p l c s]
  by blast

theorem getOrCreateRepository_malformed_uri_witness:
  "generateRepositoryId (js ''foobar'') = None \<and>
   getOrCreateRepository sandbox (js ''projectId'') (js ''us-central1'') connectionId0 (js ''foobar'')
     start =
     (Inl (FirebaseError
             (js ''Failed to generate repositoryId for URI \"'' @ js ''foobar'' @ js ''\".'') None),
      start) \<and>
   generateRepositoryId (js ''https://github.com/test/repo0.git'') = Some (js ''test-repo0'') \<and>
   (\<exists>rest. newCalls start
      (snd (getOrCreateRepository createsRepository (js ''projectId'') (js ''us-central1'')
              connectionId0 (js ''https://github.com/test/repo0.git'') start)) =
      GetGitRepositoryLink (js ''projectId'') (js ''us-central1'') connectionId0 (js ''test-repo0'')
        # rest)"
proof -
  have h1: "generateRepositoryId (js ''foobar'') = None"
    by code_simp
  note r1 = getOrCreateRepository_malformed_uri[THEN conjunct1, THEN mp, OF h1]
  note r2 = getOrCreateRepository_malformed_uri[THEN conjunct2, THEN mp, OF testUri_id, THEN conjunct1]
  show ?thesis
    by (intro conjI h1 r1 r2 testUri_id)
qed

section \<open>Waiting for the app installation\<close>

lemma ensureFullyInstalledConnection_pending:
  assumes "stage (installationState conn) \<noteq> COMPLETE"
    and "utils_openInBrowser R (replace (js ''install_v2'') (js ''direct_install_v2'')
           (actionUri (installationState conn))) (world s) = (Inr u, w1)"
    and "promptOnce R \<lparr>type' = js ''input'', promptMessage = js
      ''Press Enter once you have installed or configured the Firebase GitHub app to access your GitHub repo.''\<rparr>
           w1 = (Inr answer, w2)"
    and "devConnect_getConnection R p l c w2 = (fetched, w3)"
  shows "ensureFullyInstalledConnection R p l c conn s =
     (fetched, \<lparr>world = w3,
                calls = calls s @
                  [OpenInBrowser (replace (js ''install_v2'') (js ''direct_install_v2'')
                     (actionUri (installationState conn))),
                   PromptOnce \<lparr>type' = js ''input'', promptMessage = js
      ''Press Enter once you have installed or configured the Firebase GitHub app to access your GitHub repo.''\<rparr>,
                   GetConnection p l c]\<rparr>)"
  using assms
  by (simp add: ensureFullyInstalledConnection_def invoke_def Let_def del: js_Cons)

lemma ensureFullyInstalledConnection_complete:
  "stage (installationState conn) = COMPLETE \<Longrightarrow>
     ensureFullyInstalledConnection R p l c conn s = (Inr conn, s)"
  by (simp add: ensureFullyInstalledConnection_def)

text \<open>
  \<open>replace\<close> in terms of the occurrences of the pattern: the occurrence that no other
  one precedes is the one replaced, and a text without an occurrence stays as it is.
\<close>

lemma replace_first:
  assumes "pat \<noteq> []" and "\<not> sublist pat (pre @ butlast pat)"
  shows "replace pat rep (pre @ pat @ post) = pre @ rep @ post"
  using assms(2)
proof (induction pre)
  case Nil
  obtain c cs where "pat @ post = c # cs"
    using assms(1) by (cases pat) auto
  then show ?case
    by simp (metis append_eq_conv_conj)
next
  case (Cons a pre)
  let ?n = "length pat"
  have no: "take ?n (a # pre @ pat @ post) \<noteq> pat"
  proof
    assume t: "take ?n (a # pre @ pat @ post) = pat"
    have e: "a # pre @ pat @ post = ((a # pre) @ butlast pat) @ ([last pat] @ post)"
      by (metis append_Cons append_assoc append_butlast_last_id assms(1))
    have n: "?n \<le> length ((a # pre) @ butlast pat)"
      by simp
    have "take ?n (((a # pre) @ butlast pat) @ ([last pat] @ post)) = pat"
      using t by (simp only: e)
    moreover have "take ?n (((a # pre) @ butlast pat) @ ([last pat] @ post)) =
        take ?n ((a # pre) @ butlast pat)"
      using n by (simp only: take_append) simp
    ultimately have "take ?n ((a # pre) @ butlast pat) = pat"
      by (simp only:)
    then have "prefix pat ((a # pre) @ butlast pat)"
      by (metis take_is_prefix)
    then show False
      using Cons.prems by (auto dest: prefix_imp_sublist)
  qed
  have "\<not> sublist pat (pre @ butlast pat)"
    using Cons.prems by (auto simp: sublist_Cons_right)
  then show ?case
    using no Cons.IH by simp
qed

lemma replace_absent:
  assumes "\<not> sublist pat s"
  shows "replace pat rep s = s"
  using assms
proof (induction s)
  case Nil
  then show ?case by auto
next
  case (Cons c cs)
  have "take (length pat) (c # cs) \<noteq> pat"
  proof
    assume "take (length pat) (c # cs) = pat"
    then have "prefix pat (c # cs)"
      by (metis take_is_prefix)
    then show False
      using Cons.prems by (auto dest: prefix_imp_sublist)
  qed
  moreover have "\<not> sublist pat cs"
    using Cons.prems by (auto simp: sublist_Cons_right)
  ultimately show ?case
    using Cons.IH by simp
qed

text \<open>
  C3. For a connection whose stage is not \<open>COMPLETE\<close>, when the browser opens and the
  human answers the prompt, \<open>ensureFullyInstalledConnection\<close> opens the rewritten
  action URI, prompts, fetches the connection by project, location and id exactly once,
  and returns what the fetch returns, whatever its stage. The rewritten URI is the
  action URI with \<^verbatim>\<open>direct_install_v2\<close> in the place of its first \<^verbatim>\<open>install_v2\<close>
  (the occurrence after \<open>pre\<close>, when none starts earlier), and the action URI itself
  when \<^verbatim>\<open>install_v2\<close> does not occur in it. For a connection whose stage is
  \<open>COMPLETE\<close> the function returns the connection with no call and no prompt.
\<close>

theorem ensureFullyInstalledConnection_single_check:
  "(stage (installationState conn) \<noteq> COMPLETE \<and>
    actionUri (installationState conn) = pre @ js ''install_v2'' @ post \<and>
    \<not> sublist (js ''install_v2'') (pre @ js ''install_v'') \<and>
    target = pre @ js ''direct_install_v2'' @ post \<and>
    utils_openInBrowser R target (world s) = (Inr u, w1) \<and>
    q = \<lparr>type' = js ''input'', promptMessage = js
      ''Press Enter once you have installed or configured the Firebase GitHub app to access your GitHub repo.''\<rparr> \<and>
    promptOnce R q w1 = (Inr answer, w2) \<and>
    devConnect_getConnection R p l c w2 = (fetched, w3) \<longrightarrow>
      ensureFullyInstalledConnection R p l c conn s =
        (fetched, \<lparr>world = w3,
                   calls = calls s @ [OpenInBrowser target, PromptOnce q, GetConnection p l c]\<rparr>)) \<and>
   (stage (installationState conn) \<noteq> COMPLETE \<and>
    \<not> sublist (js ''install_v2'') (actionUri (installationState conn)) \<and>
    target = actionUri (installationState conn) \<and>
    utils_openInBrowser R target (world s) = (Inr u, w1) \<and>
    q = \<lparr>type' = js ''input'', promptMessage = js
      ''Press Enter once you have installed or configured the Firebase GitHub app to access your GitHub repo.''\<rparr> \<and>
    promptOnce R q w1 = (Inr answer, w2) \<and>
    devConnect_getConnection R p l c w2 = (fetched, w3) \<longrightarrow>
      ensureFullyInstalledConnection R p l c conn s =
        (fetched, \<lparr>world = w3,
                   calls = calls s @ [OpenInBrowser target, PromptOnce q, GetConnection p l c]\<rparr>)) \<and>
   (stage (installationState conn) = COMPLETE \<longrightarrow>
      ensureFullyInstalledConnection R p l c conn s = (Inr conn, s))"
proof (intro conjI impI)
  assume h: "stage (installationState conn) \<noteq> COMPLETE \<and>
    actionUri (installationState conn) = pre @ js ''install_v2'' @ post \<and>
    \<not> sublist (js ''install_v2'') (pre @ js ''install_v'') \<and>
    target = pre @ js ''direct_install_v2'' @ post \<and>
    utils_openInBrowser R target (world s) = (Inr u, w1) \<and>
    q = \<lparr>type' = js ''input'', promptMessage = js
      ''Press Enter once you have installed or configured the Firebase GitHub app to access your GitHub repo.''\<rparr> \<and>
    promptOnce R q w1 = (Inr answer, w2) \<and>
    devConnect_getConnection R p l c w2 = (fetched, w3)"
  have "butlast (js ''install_v2'') = js ''install_v''" "js ''install_v2'' \<noteq> []"
    by simp_all
  then have "replace (js ''install_v2'') (js ''direct_install_v2'') (pre @ js ''install_v2'' @ post) =
      pre @ js ''direct_install_v2'' @ post"
    using h replace_first[of "js ''install_v2''" pre "js ''direct_install_v2''" post]
    by (simp only: not_False_eq_True)
  then have t: "target = replace (js ''install_v2'') (js ''direct_install_v2'')
               (actionUri (installationState conn))"
    using h by (simp only:)
  have q: "q = \<lparr>type' = js ''input'', promptMessage = js
      ''Press Enter once you have installed or configured the Firebase GitHub app to access your GitHub repo.''\<rparr>"
    using h by blast
  from h show "ensureFullyInstalledConnection R p l c conn s =
        (fetched, \<lparr>world = w3,
                   calls = calls s @ [OpenInBrowser target, PromptOnce q, GetConnection p l c]\<rparr>)"
    unfolding t q by (intro ensureFullyInstalledConnection_pending[of conn R s u w1 answer w2]) blast+
next
  assume h: "stage (installationState conn) \<noteq> COMPLETE \<and>
    \<not> sublist (js ''install_v2'') (actionUri (installationState conn)) \<and>
    target = actionUri (installationState conn) \<and>
    utils_openInBrowser R target (world s) = (Inr u, w1) \<and>
    q = \<lparr>type' = js ''input'', promptMessage = js
      ''Press Enter once you have installed or configured the Firebase GitHub app to access your GitHub repo.''\<rparr> \<and>
    promptOnce R q w1 = (Inr answer, w2) \<and>
    devConnect_getConnection R p l c w2 = (fetched, w3)"
  have "replace (js ''install_v2'') (js ''direct_install_v2'') (actionUri (installationState conn)) =
      actionUri (installationState conn)"
    using h by (intro replace_absent) blast
  then have t: "target = replace (js ''install_v2'') (js ''direct_install_v2'')
               (actionUri (installationState conn))"
    using h by (simp only:)
  have q: "q = \<lparr>type' = js ''input'', promptMessage = js
      ''Press Enter once you have installed or configured the Firebase GitHub app to access your GitHub repo.''\<rparr>"
    using h by blast
  from h show "ensureFullyInstalledConnection R p l c conn s =
        (fetched, \<lparr>world = w3,
                   calls = calls s @ [OpenInBrowser target, PromptOnce q, GetConnection p l c]\<rparr>)"
    unfolding t q by (intro ensureFullyInstalledConnection_pending[of conn R s u w1 answer w2]) blast+
next
  assume "stage (installationState conn) = COMPLETE"
  then show "ensureFullyInstalledConnection R p l c conn s = (Inr conn, s)"
    by (rule ensureFullyInstalledConnection_complete)
qed

theorem ensureFullyInstalledConnection_single_check_witness:
  "stage (installationState installPendingConn) \<noteq> COMPLETE \<and>
   actionUri (installationState installPendingConn) =
     js ''https://github.com/apps/firebase/'' @ js ''install_v2'' @ js ''?state=1'' \<and>
   \<not> sublist (js ''install_v2'') (js ''https://github.com/apps/firebase/'' @ js ''install_v'') \<and>
   ensureFullyInstalledConnection installStaysPending (js ''projectId'') (js ''us-central1'')
     connectionId0 installPendingConn start =
     (Inr installPendingConn,
      \<lparr>world = 0,
       calls = calls start @
         [OpenInBrowser (js ''https://github.com/apps/firebase/direct_install_v2?state=1''),
          PromptOnce \<lparr>type' = js ''input'', promptMessage = js
      ''Press Enter once you have installed or configured the Firebase GitHub app to access your GitHub repo.''\<rparr>,
          GetConnection (js ''projectId'') (js ''us-central1'') connectionId0]\<rparr>) \<and>
   stage (installationState pendingConn) \<noteq> COMPLETE \<and>
   \<not> sublist (js ''install_v2'') (actionUri (installationState pendingConn)) \<and>
   ensureFullyInstalledConnection installStaysPending (js ''projectId'') (js ''us-central1'')
     connectionId0 pendingConn start =
     (Inr installPendingConn,
      \<lparr>world = 0,
       calls = calls start @
         [OpenInBrowser (js ''https://google.com''),
          PromptOnce \<lparr>type' = js ''input'', promptMessage = js
      ''Press Enter once you have installed or configured the Firebase GitHub app to access your GitHub repo.''\<rparr>,
          GetConnection (js ''projectId'') (js ''us-central1'') connectionId0]\<rparr>) \<and>
   stage (installationState completeConn) = COMPLETE \<and>
   ensureFullyInstalledConnection sandbox (js ''projectId'') (js ''us-central1'') connectionId0
     completeConn start = (Inr completeConn, start)"
proof -
  let ?pre = "js ''https://github.com/apps/firebase/''" and ?post = "js ''?state=1''"
  let ?t = "js ''https://github.com/apps/firebase/direct_install_v2?state=1''"
  let ?g = "js ''https://google.com''"
  let ?q = "\<lparr>type' = js ''input'', promptMessage = js
      ''Press Enter once you have installed or configured the Firebase GitHub app to access your GitHub repo.''\<rparr>"
  have st: "stage (installationState installPendingConn) \<noteq> COMPLETE"
    by (simp add: installPendingConn_def)
  have st1: "stage (installationState pendingConn) \<noteq> COMPLETE"
    by (simp add: pendingConn_def)
  have st2: "stage (installationState completeConn) = COMPLETE"
    by (simp add: completeConn_def)
  have au: "actionUri (installationState installPendingConn) = ?pre @ js ''install_v2'' @ ?post"
    by (simp add: installPendingConn_def)
  have au1: "actionUri (installationState pendingConn) = ?g"
    by (simp add: pendingConn_def del: js_Cons)
  have first: "\<not> sublist (js ''install_v2'') (?pre @ js ''install_v'')"
    by code_simp
  have none: "\<not> sublist (js ''install_v2'') ?g"
    by code_simp
  have tt: "?t = ?pre @ js ''direct_install_v2'' @ ?post"
    by simp
  have h: "stage (installationState installPendingConn) \<noteq> COMPLETE \<and>
    actionUri (installationState installPendingConn) = ?pre @ js ''install_v2'' @ ?post \<and>
    \<not> sublist (js ''install_v2'') (?pre @ js ''install_v'') \<and>
    ?t = ?pre @ js ''direct_install_v2'' @ ?post \<and>
    utils_openInBrowser installStaysPending ?t (world start) = (Inr (), 0) \<and>
    ?q = ?q \<and>
    promptOnce installStaysPending ?q 0 = (Inr (js ''any key''), 0) \<and>
    devConnect_getConnection installStaysPending (js ''projectId'') (js ''us-central1'') connectionId0 0 =
      (Inr installPendingConn, 0)"
    using st au first tt
    by (simp add: installStaysPending_def sandbox_def start_def del: js_Cons)
  have h1: "stage (installationState pendingConn) \<noteq> COMPLETE \<and>
    \<not> sublist (js ''install_v2'') (actionUri (installationState pendingConn)) \<and>
    ?g = actionUri (installationState pendingConn) \<and>
    utils_openInBrowser installStaysPending ?g (world start) = (Inr (), 0) \<and>
    ?q = ?q \<and>
    promptOnce installStaysPending ?q 0 = (Inr (js ''any key''), 0) \<and>
    devConnect_getConnection installStaysPending (js ''projectId'') (js ''us-central1'') connectionId0 0 =
      (Inr installPendingConn, 0)"
    using st1 au1 none
    by (simp add: installStaysPending_def sandbox_def start_def del: js_Cons)
  have none': "\<not> sublist (js ''install_v2'') (actionUri (installationState pendingConn))"
    unfolding au1 by (rule none)
  note r1 = ensureFullyInstalledConnection_single_check[THEN conjunct1, THEN mp, OF h]
  note r1' = ensureFullyInstalledConnection_single_check[THEN conjunct2, THEN conjunct1, THEN mp, OF h1]
  note r2 = ensureFullyInstalledConnection_single_check[THEN conjunct2, THEN conjunct2, THEN mp, OF st2]
  show ?thesis
    by (intro conjI st st1 st2 au first none' r1 r1' r2)
qed

section \<open>The OAuth loop\<close>

lemma oauthLoop_result_any:
  assumes "oauthLoop R conn s = Some y"
  shows "\<forall>conn' s'. y = (Inr conn', s') \<longrightarrow>
     stage (installationState conn') \<noteq> PENDING_USER_OAUTH"
proof (rule oauthLoop.raw_induct[OF _ assms])
  fix loop :: "'a Collaborators \<Rightarrow> Connection \<Rightarrow> 'a state \<Rightarrow> ((error + Connection) \<times> 'a state) option"
    and R conn s y
  assume IH: "\<And>R conn s y. loop R conn s = Some y \<Longrightarrow>
      \<forall>conn' s'. y = (Inr conn', s') \<longrightarrow> stage (installationState conn') \<noteq> PENDING_USER_OAUTH"
  assume body: "(if stage (installationState conn) = PENDING_USER_OAUTH then
        (case invoke (OpenInBrowserPopup (actionUri (installationState conn))
                        (js ''Authorize the GitHub app''))
                (utils_openInBrowserPopup R (actionUri (installationState conn))
                        (js ''Authorize the GitHub app'')) s of
           (Inl err, s1) \<Rightarrow> Some (Inl err, s1)
         | (Inr url, s1) \<Rightarrow>
             (let q = \<lparr>type' = js ''input'',
                       promptMessage = js ''Press Enter once you have authorized the app''\<rparr>
              in case invoke (PromptOnce q) (promptOnce R q) s1 of
                   (Inl err, s2) \<Rightarrow> Some (Inl err, s2)
                 | (Inr _, s2) \<Rightarrow>
                     (case invoke Cleanup (cleanup R) s2 of
                        (Inl err, s3) \<Rightarrow> Some (Inl err, s3)
                      | (Inr _, s3) \<Rightarrow>
                          (case parseConnectionName (name conn) of
                             None \<Rightarrow>
                               Some (Inl TypeError, s3)
                           | Some (ConnectionNameParts projectId location id') \<Rightarrow>
                               (case invoke (GetConnection projectId location id')
                                       (devConnect_getConnection R projectId location id') s3 of
                                  (Inl err, s4) \<Rightarrow> Some (Inl err, s4)
                                | (Inr conn', s4) \<Rightarrow> loop R conn' s4)))))
      else Some (Inr conn, s)) = Some y"
  show "\<forall>conn' s'. y = (Inr conn', s') \<longrightarrow>
     stage (installationState conn') \<noteq> PENDING_USER_OAUTH"
  proof (cases "stage (installationState conn) = PENDING_USER_OAUTH")
    case False
    then show ?thesis using body by auto
  next
    case True
    then show ?thesis
      using body IH
      by (auto split: prod.splits sum.splits option.splits ConnectionNameParts.splits
          simp: Let_def simp del: js_Cons)
  qed
qed

lemma oauthLoop_result:
  "oauthLoop R conn s = Some (Inr conn', s') \<Longrightarrow>
     stage (installationState conn') \<noteq> PENDING_USER_OAUTH"
  using oauthLoop_result_any by blast

lemma oauthLoop_exit:
  "stage (installationState conn) \<noteq> PENDING_USER_OAUTH \<Longrightarrow>
     oauthLoop R conn s = Some (Inr conn, s)"
  by (subst oauthLoop.simps) simp

lemma oauthLoop_step:
  assumes "stage (installationState conn) = PENDING_USER_OAUTH"
    and "utils_openInBrowserPopup R (actionUri (installationState conn))
           (js ''Authorize the GitHub app'') (world s) = (Inr url, w1)"
    and "promptOnce R \<lparr>type' = js ''input'',
           promptMessage = js ''Press Enter once you have authorized the app''\<rparr> w1 =
         (Inr answer, w2)"
    and "cleanup R w2 = (Inr u, w3)"
    and "parseConnectionName (name conn) = Some (ConnectionNameParts p l i)"
    and "devConnect_getConnection R p l i w3 = (Inr fetched, w4)"
  shows "oauthLoop R conn s =
     oauthLoop R fetched
       \<lparr>world = w4,
        calls = calls s @
          [OpenInBrowserPopup (actionUri (installationState conn)) (js ''Authorize the GitHub app''),
           PromptOnce \<lparr>type' = js ''input'',
             promptMessage = js ''Press Enter once you have authorized the app''\<rparr>,
           Cleanup, GetConnection p l i]\<rparr>"
  using assms
  by (subst oauthLoop.simps) (simp add: invoke_def Let_def del: js_Cons)

lemma getOrCreateOauthConnection_result:
  "getOrCreateOauthConnection R p l s = Some (Inr conn, s') \<Longrightarrow>
     stage (installationState conn) \<noteq> PENDING_USER_OAUTH"
  unfolding getOrCreateOauthConnection_def
  by (auto split: prod.splits sum.splits dest: oauthLoop_result)

text \<open>
  C2, as the code has it. The loop of \<open>getOrCreateOauthConnection\<close> runs while the
  stage is \<open>PENDING_USER_OAUTH\<close>: a connection in any other stage is returned at
  once, with no call; a connection in that stage has its action URI opened in the
  browser popup, the human is prompted, the popup is cleaned up, the connection is
  fetched again under the project, location and id of its name, and the loop goes on
  with the fetched connection. So for every run that returns a connection, the stage of
  that connection is not \<open>PENDING_USER_OAUTH\<close>.
\<close>

theorem getOrCreateOauthConnection_until_not_pending:
  "(getOrCreateOauthConnection R p l s = Some (Inr conn', s') \<longrightarrow>
      stage (installationState conn') \<noteq> PENDING_USER_OAUTH) \<and>
   (oauthLoop R conn s = Some (Inr conn', s') \<longrightarrow>
      stage (installationState conn') \<noteq> PENDING_USER_OAUTH) \<and>
   (stage (installationState conn) \<noteq> PENDING_USER_OAUTH \<longrightarrow>
      oauthLoop R conn s = Some (Inr conn, s)) \<and>
   (stage (installationState conn) = PENDING_USER_OAUTH \<and>
    utils_openInBrowserPopup R (actionUri (installationState conn))
      (js ''Authorize the GitHub app'') (world s) = (Inr url, w1) \<and>
    promptOnce R \<lparr>type' = js ''input'',
      promptMessage = js ''Press Enter once you have authorized the app''\<rparr> w1 = (Inr answer, w2) \<and>
    cleanup R w2 = (Inr u, w3) \<and>
    parseConnectionName (name conn) = Some (ConnectionNameParts pn ln idn) \<and>
    devConnect_getConnection R pn ln idn w3 = (Inr fetched, w4) \<longrightarrow>
      oauthLoop R conn s =
        oauthLoop R fetched
          \<lparr>world = w4,
           calls = calls s @
             [OpenInBrowserPopup (actionUri (installationState conn))
                (js ''Authorize the GitHub app''),
              PromptOnce \<lparr>type' = js ''input'',
                promptMessage = js ''Press Enter once you have authorized the app''\<rparr>,
              Cleanup, GetConnection pn ln idn]\<rparr>)"
  using getOrCreateOauthConnection_result[of R p l s conn' s']
    oauthLoop_result[of R conn s conn' s'] oauthLoop_exit[of conn R s]
    oauthLoop_step[of conn R s url w1 answer w2 u w3 pn ln idn fetched w4]
  by blast

theorem getOrCreateOauthConnection_until_not_pending_witness:
  "getOrCreateOauthConnection authorizes (js ''projectId'') (js ''us-central1'') start =
     Some (Inr completeConn,
           \<lparr>world = 2,
            calls =
              [GetConnection (js ''projectId'') (js ''us-central1'') APPHOSTING_OAUTH_CONN_NAME,
               CreateConnection (js ''projectId'') (js ''us-central1'') APPHOSTING_OAUTH_CONN_NAME None,
               PollOperation (devConnectPollerOptions authorizes
                 (js ''create-'' @ js ''us-central1'' @ js ''-'' @ APPHOSTING_OAUTH_CONN_NAME) (name op0)),
               OpenInBrowserPopup (js ''https://google.com'') (js ''Authorize the GitHub app''),
               PromptOnce \<lparr>type' = js ''input'',
                 promptMessage = js ''Press Enter once you have authorized the app''\<rparr>,
               Cleanup,
               GetConnection (js ''projectId'') (js ''us-central1'') (js ''apphosting-us-central1'')]\<rparr>) \<and>
   stage (installationState pendingConn) = PENDING_USER_OAUTH \<and>
   stage (installationState completeConn) \<noteq> PENDING_USER_OAUTH"
proof -
  let ?p = "js ''projectId''" and ?l = "js ''us-central1''"
  let ?q = "\<lparr>type' = js ''input'',
      promptMessage = js ''Press Enter once you have authorized the app''\<rparr>"
  let ?s1 = "\<lparr>world = 1 :: nat,
      calls = [GetConnection ?p ?l APPHOSTING_OAUTH_CONN_NAME,
               CreateConnection ?p ?l APPHOSTING_OAUTH_CONN_NAME None,
               PollOperation (devConnectPollerOptions authorizes
                 (js ''create-'' @ ?l @ js ''-'' @ APPHOSTING_OAUTH_CONN_NAME) (name op0))]\<rparr>"
  let ?s2 = "\<lparr>world = 2 :: nat,
      calls = calls ?s1 @
        [OpenInBrowserPopup (actionUri (installationState pendingConn)) (js ''Authorize the GitHub app''),
         PromptOnce ?q, Cleanup, GetConnection ?p ?l (js ''apphosting-us-central1'')]\<rparr>"
  note T = getOrCreateOauthConnection_until_not_pending
  have first: "getOrCreateConnection authorizes ?p ?l APPHOSTING_OAUTH_CONN_NAME None start =
      (Inr pendingConn, ?s1)"
    by (simp add: getOrCreateConnection_def createConnection_def invoke_def authorizes_def
        createsConnection_def sandbox_def start_def del: js_Cons)
  have pend: "stage (installationState pendingConn) = PENDING_USER_OAUTH"
    by (simp add: pendingConn_def)
  have compl: "stage (installationState completeConn) \<noteq> PENDING_USER_OAUTH"
    by (simp add: completeConn_def)
  have parse: "parseConnectionName (name pendingConn) =
      Some (ConnectionNameParts ?p ?l (js ''apphosting-us-central1''))"
    unfolding pendingConn_def by code_simp
  have h: "stage (installationState pendingConn) = PENDING_USER_OAUTH \<and>
    utils_openInBrowserPopup authorizes (actionUri (installationState pendingConn))
      (js ''Authorize the GitHub app'') (world ?s1) = (Inr (js ''http://localhost:9005''), 1) \<and>
    promptOnce authorizes ?q 1 = (Inr (js ''any key''), 1) \<and>
    cleanup authorizes 1 = (Inr (), 1) \<and>
    parseConnectionName (name pendingConn) =
      Some (ConnectionNameParts ?p ?l (js ''apphosting-us-central1'')) \<and>
    devConnect_getConnection authorizes ?p ?l (js ''apphosting-us-central1'') 1 = (Inr completeConn, 2)"
    using pend parse
    by (simp add: authorizes_def createsConnection_def sandbox_def del: js_Cons)
  have step: "oauthLoop authorizes pendingConn ?s1 = oauthLoop authorizes completeConn ?s2"
    by (rule T[THEN conjunct2, THEN conjunct2, THEN conjunct2, THEN mp, OF h])
  have leave: "oauthLoop authorizes completeConn ?s2 = Some (Inr completeConn, ?s2)"
    by (rule T[THEN conjunct2, THEN conjunct2, THEN conjunct1, THEN mp, OF compl])
  have run: "getOrCreateOauthConnection authorizes ?p ?l start = Some (Inr completeConn, ?s2)"
    using first step leave by (simp add: getOrCreateOauthConnection_def del: js_Cons)
  have "stage (installationState completeConn) \<noteq> PENDING_USER_OAUTH"
    by (rule T[THEN conjunct1, THEN mp, OF run])
  moreover have "actionUri (installationState pendingConn) = js ''https://google.com''"
    by (simp add: pendingConn_def del: js_Cons)
  ultimately show ?thesis
    using run pend by (simp del: js_Cons)
qed

text \<open>
  A sentinel connection that exists with its app installation pending is returned as it
  is: the run ends, and the stage is not \<open>COMPLETE\<close>.
\<close>

theorem getOrCreateOauthConnection_until_not_pending_counterexample:
  "getOrCreateOauthConnection sentinelAwaitsInstall (js ''projectId'') (js ''us-central1'') start =
     Some (Inr oauthConnAwaitingInstall,
           \<lparr>world = 0,
            calls = [GetConnection (js ''projectId'') (js ''us-central1'')
                       APPHOSTING_OAUTH_CONN_NAME]\<rparr>) \<and>
   stage (installationState oauthConnAwaitingInstall) \<noteq> COMPLETE"
proof -
  have st: "stage (installationState oauthConnAwaitingInstall) = PENDING_USER_INSTALL_APP"
    by (simp add: oauthConnAwaitingInstall_def mockConn_def)
  have "getOrCreateConnection sentinelAwaitsInstall (js ''projectId'') (js ''us-central1'')
      APPHOSTING_OAUTH_CONN_NAME None start =
      (Inr oauthConnAwaitingInstall,
       \<lparr>world = 0, calls = [GetConnection (js ''projectId'') (js ''us-central1'')
                       APPHOSTING_OAUTH_CONN_NAME]\<rparr>)"
    by (simp add: getOrCreateConnection_def invoke_def sentinelAwaitsInstall_def sandbox_def
        start_def del: js_Cons)
  then show ?thesis
    using st by (simp add: getOrCreateOauthConnection_def oauthLoop_exit del: js_Cons)
qed

section \<open>Aggregating repositories\<close>








lemma lastListing_Nil [simp]: "lastListing [] uri = None"
  by (simp add: lastListing_def)


lemma listedUris_simps [simp]:
  "listedUris [] = {}"
  "listedUris ((conn, repos) # ls) = cloneUri ` set repos \<union> listedUris ls"
  by (auto simp: listedUris_def)

lemma addListings_simps [simp]:
  "addListings obj [] = obj"
  "addListings obj ((conn, repos) # ls) =
     addListings (foldl (\<lambda>o' repo. setProperty o' (cloneUri repo) conn) obj repos) ls"
  by (simp_all add: addListings_def)













end
